theory Spec2Isabelle
  imports Complex_Main "HOL-Library.Monad_Syntax"
begin

section \<open>Conventions of the embedding\<close>

text \<open>
  The DSP core of Cosmos (\<^verbatim>\<open>Source/DSP/*.h\<close>) is embedded function by function.
  \<^item> A C++ class is a record of its data members; a member function takes the record and
    returns the updated record (and its result, if any).
  \<^item> A \<^verbatim>\<open>float\<close> or \<^verbatim>\<open>double\<close> value is a real number. Where a function turns a
    floating-point value into an index, a count, a buffer size or the end of the effect,
    each of its operations on the way there, from its arguments and the stored members
    on, is rounded as the hardware rounds it, to binary32 for \<^verbatim>\<open>float\<close> and to binary64
    for \<^verbatim>\<open>double\<close>: the read position of the delay lines, the number of active diffusion
    stages, the delay times that \<^verbatim>\<open>prepare\<close> converts to samples, the pre-delay and the
    \<^verbatim>\<open>float\<close> phase accumulator of \<^verbatim>\<open>FairingSeparation\<close>. The arithmetic on sample values, filter
    coefficients and modulation signals is exact (so the modulation offset that reaches
    \<^verbatim>\<open>processModulated\<close> is an exact real, rounded from there on); the library functions
    involved (\<^verbatim>\<open>std::sin\<close>, \<^verbatim>\<open>std::pow\<close>) have no rounding fixed by a standard. A
    comparison with the literal \<^verbatim>\<open>0.01f\<close> (the two bypass tests) is written with the
    decimal 0.01.
  \<^item> \<^verbatim>\<open>int\<close> values are unbounded integers. A conversion of a floating-point value that
    does not fit an \<^verbatim>\<open>int\<close> is undefined behaviour in C++; \<^verbatim>\<open>setPreDelay\<close> converts a
    parameter of any size, and there the conversion is checked. In \<^verbatim>\<open>prepare\<close> the
    converted values are half a second and delay times below 70 ms in samples, which fit
    for every sample rate below \<open>2 ^ 31\<close> Hz; \<^verbatim>\<open>prepare\<close> is embedded for such rates.
  \<^item> \<^verbatim>\<open>std::vector<float>\<close> is a list. An access outside the vector, a remainder by
    zero and an unrepresentable conversion are undefined behaviour in C++; in the
    embedding they are the result \<open>None\<close>.
  \<^item> \<^verbatim>\<open>std::array<T, N>\<close> is a list, too; its length \<open>N\<close> is fixed by the C++ type, and a
    loop over all \<open>N\<close> elements is a \<open>map\<close> over the list or over the indices \<open>[0..<N]\<close>.
\<close>

subsection \<open>JUCE helpers and C++ primitives\<close>

text \<open>\<^verbatim>\<open>juce::jlimit (lowerLimit, upperLimit, valueToConstrain)\<close>: the nested conditional
  of the JUCE header.\<close>

definition jlimit :: "'a::linorder \<Rightarrow> 'a \<Rightarrow> 'a \<Rightarrow> 'a" where
  "jlimit lowerLimit upperLimit valueToConstrain =
     (if valueToConstrain < lowerLimit then lowerLimit
      else if upperLimit < valueToConstrain then upperLimit
      else valueToConstrain)"

definition jmin :: "'a::linorder \<Rightarrow> 'a \<Rightarrow> 'a" where
  "jmin a b = (if b < a then b else a)"

definition jmax :: "'a::linorder \<Rightarrow> 'a \<Rightarrow> 'a" where
  "jmax a b = (if a < b then b else a)"

text \<open>\<^verbatim>\<open>static_cast<int> (x)\<close> on a floating-point value: truncation towards zero.\<close>

definition to_int :: "real \<Rightarrow> int" where
  "to_int x = (if 0 \<le> x then \<lfloor>x\<rfloor> else \<lceil>x\<rceil>)"

text \<open>\<^verbatim>\<open>a % b\<close> on \<^verbatim>\<open>int\<close>: the remainder of the division that truncates towards zero;
  undefined for \<open>b = 0\<close>.\<close>

definition c_rem :: "int \<Rightarrow> int \<Rightarrow> int option" where
  "c_rem a b = (if b = 0 then None else Some (sgn a * (\<bar>a\<bar> mod \<bar>b\<bar>)))"

text \<open>\<^verbatim>\<open>v[static_cast<size_t> (i)]\<close> as a read and as a write.\<close>

definition rd :: "'a list \<Rightarrow> int \<Rightarrow> 'a option" where
  "rd v i = (if 0 \<le> i \<and> i < int (length v) then Some (v ! nat i) else None)"

definition wr :: "'a list \<Rightarrow> int \<Rightarrow> 'a \<Rightarrow> 'a list option" where
  "wr v i x = (if 0 \<le> i \<and> i < int (length v) then Some (v[nat i := x]) else None)"

subsection \<open>Rounding to binary32 and binary64\<close>

text \<open>
  A \<^verbatim>\<open>float\<close> operation returns the binary32 number nearest to the exact result, ties
  going to the even significand. \<open>f32_exponent x\<close> is the binary exponent of \<open>x\<close>, found by
  a search downwards from the largest exponent 127 to the smallest, -126, where the
  subnormal numbers share one spacing; \<open>f32_round x\<close> rounds \<open>x\<close> to the multiple of
  \<open>2 ^ (exponent - 23)\<close> nearest to it. Overflow to infinity (a magnitude of \<open>2 ^ 128\<close> or
  more) is not modelled; no value that is rounded in this theory comes near it.
\<close>

definition rne :: "real \<Rightarrow> int" where
  "rne x = (let n = \<lfloor>x\<rfloor>; d = x - real_of_int n
            in if d < 1 / 2 then n else if 1 / 2 < d then n + 1
               else if even n then n else n + 1)"

fun f32_exponent_from :: "nat \<Rightarrow> int \<Rightarrow> real \<Rightarrow> int" where
  "f32_exponent_from 0 e x = e"
| "f32_exponent_from (Suc n) e x = (if 2 powi e \<le> x then e else f32_exponent_from n (e - 1) x)"

definition f32_exponent :: "real \<Rightarrow> int" where
  "f32_exponent x = f32_exponent_from 253 127 \<bar>x\<bar>"

definition f32_round :: "real \<Rightarrow> real" where
  "f32_round x = (let u = 2 powi (f32_exponent x - 23) in real_of_int (rne (x / u)) * u)"

text \<open>A \<^verbatim>\<open>double\<close> operation rounds in the same way to binary64: the same search, from
  the exponent 1023 down to -1022, and a significand of 52 stored bits.\<close>

definition f64_exponent :: "real \<Rightarrow> int" where
  "f64_exponent x = f32_exponent_from 2045 1023 \<bar>x\<bar>"

definition f64_round :: "real \<Rightarrow> real" where
  "f64_round x = (let u = 2 powi (f64_exponent x - 52) in real_of_int (rne (x / u)) * u)"

text \<open>\<^verbatim>\<open>static_cast<int> (x)\<close> where \<open>x\<close> may be any floating-point value: the truncation,
  if a 32-bit \<^verbatim>\<open>int\<close> holds it.\<close>

definition to_int_checked :: "real \<Rightarrow> int option" where
  "to_int_checked x =
     (if - (2 ^ 31) \<le> to_int x \<and> to_int x < 2 ^ 31 then Some (to_int x) else None)"

section \<open>AllpassFilter\<close>

record AllpassFilter =
  ap_buffer :: "real list"
  ap_writeIndex :: int
  ap_maxDelay :: int
  ap_currentDelay :: real
  ap_feedback :: real
  ap_sampleRate :: real

text \<open>The default member initialisers of the class.\<close>

definition AllpassFilter_new :: AllpassFilter where
  "AllpassFilter_new =
     \<lparr>ap_buffer = [], ap_writeIndex = 0, ap_maxDelay = 0, ap_currentDelay = 100,
      ap_feedback = 0.5, ap_sampleRate = 44100\<rparr>"

definition AllpassFilter_prepare :: "real \<Rightarrow> int \<Rightarrow> AllpassFilter \<Rightarrow> AllpassFilter" where
  "AllpassFilter_prepare sr maxDelaySamples a =
     a\<lparr>ap_sampleRate := sr, ap_maxDelay := maxDelaySamples,
       ap_buffer := replicate (nat (maxDelaySamples + 4)) 0, ap_writeIndex := 0\<rparr>"

definition AllpassFilter_reset :: "AllpassFilter \<Rightarrow> AllpassFilter" where
  "AllpassFilter_reset a =
     a\<lparr>ap_buffer := map (\<lambda>_. 0) (ap_buffer a), ap_writeIndex := 0\<rparr>"

definition AllpassFilter_setDelayTime :: "real \<Rightarrow> AllpassFilter \<Rightarrow> AllpassFilter" where
  "AllpassFilter_setDelayTime delaySamples a =
     a\<lparr>ap_currentDelay := jlimit 1 (f32_round (real_of_int (ap_maxDelay a))) delaySamples\<rparr>"

definition AllpassFilter_setFeedback :: "real \<Rightarrow> AllpassFilter \<Rightarrow> AllpassFilter" where
  "AllpassFilter_setFeedback fb a = a\<lparr>ap_feedback := jlimit (- 0.99) 0.99 fb\<rparr>"

text \<open>The read position is a \<^verbatim>\<open>float\<close>: the write index and the buffer size are converted
  to \<^verbatim>\<open>float\<close>, and the difference, the sum that wraps a negative position and the
  fraction are \<^verbatim>\<open>float\<close> operations. The interpolation and the allpass structure compute
  on sample values.\<close>

definition AllpassFilter_process :: "AllpassFilter \<Rightarrow> real \<Rightarrow> (real \<times> AllpassFilter) option" where
  "AllpassFilter_process a input =
     (let size = int (length (ap_buffer a));
          readPos0 = f32_round (f32_round (real_of_int (ap_writeIndex a)) - ap_currentDelay a);
          readPos = (if readPos0 < 0 then f32_round (readPos0 + f32_round (real_of_int size))
                     else readPos0);
          readIndex0 = to_int readPos
      in do {
        readIndex1 \<leftarrow> c_rem (readIndex0 + 1) size;
        let frac = f32_round (readPos - f32_round (real_of_int readIndex0));
        s0 \<leftarrow> rd (ap_buffer a) readIndex0;
        s1 \<leftarrow> rd (ap_buffer a) readIndex1;
        let delayed = s0 * (1 - frac) + s1 * frac;
        let output = - ap_feedback a * input + delayed;
        buffer' \<leftarrow> wr (ap_buffer a) (ap_writeIndex a) (input + ap_feedback a * delayed);
        writeIndex' \<leftarrow> c_rem (ap_writeIndex a + 1) size;
        Some (output, a\<lparr>ap_buffer := buffer', ap_writeIndex := writeIndex'\<rparr>)
      })"

definition AllpassFilter_processModulated ::
  "AllpassFilter \<Rightarrow> real \<Rightarrow> real \<Rightarrow> (real \<times> AllpassFilter) option" where
  "AllpassFilter_processModulated a input modOffset =
     (let modulatedDelay0 = f32_round (ap_currentDelay a + modOffset);
          modulatedDelay = jlimit 1 (f32_round (real_of_int (ap_maxDelay a))) modulatedDelay0;
          size = int (length (ap_buffer a));
          readPos0 = f32_round (f32_round (real_of_int (ap_writeIndex a)) - modulatedDelay);
          readPos = (if readPos0 < 0 then f32_round (readPos0 + f32_round (real_of_int size))
                     else readPos0);
          readIndex0 = to_int readPos
      in do {
        readIndex1 \<leftarrow> c_rem (readIndex0 + 1) size;
        let frac = f32_round (readPos - f32_round (real_of_int readIndex0));
        s0 \<leftarrow> rd (ap_buffer a) readIndex0;
        s1 \<leftarrow> rd (ap_buffer a) readIndex1;
        let delayed = s0 * (1 - frac) + s1 * frac;
        let output = - ap_feedback a * input + delayed;
        buffer' \<leftarrow> wr (ap_buffer a) (ap_writeIndex a) (input + ap_feedback a * delayed);
        writeIndex' \<leftarrow> c_rem (ap_writeIndex a + 1) size;
        Some (output, a\<lparr>ap_buffer := buffer', ap_writeIndex := writeIndex'\<rparr>)
      })"

section \<open>CombFilter\<close>

record CombFilter =
  cf_buffer :: "real list"
  cf_writeIndex :: int
  cf_maxDelay :: int
  cf_currentDelay :: real
  cf_feedback :: real
  cf_damping :: real
  cf_filterState :: real
  cf_sampleRate :: real

definition CombFilter_new :: CombFilter where
  "CombFilter_new =
     \<lparr>cf_buffer = [], cf_writeIndex = 0, cf_maxDelay = 0, cf_currentDelay = 1000,
      cf_feedback = 0.7, cf_damping = 0.3, cf_filterState = 0, cf_sampleRate = 44100\<rparr>"

definition CombFilter_prepare :: "real \<Rightarrow> int \<Rightarrow> CombFilter \<Rightarrow> CombFilter" where
  "CombFilter_prepare sr maxDelaySamples c =
     c\<lparr>cf_sampleRate := sr, cf_maxDelay := maxDelaySamples,
       cf_buffer := replicate (nat (maxDelaySamples + 4)) 0, cf_writeIndex := 0,
       cf_filterState := 0\<rparr>"

definition CombFilter_reset :: "CombFilter \<Rightarrow> CombFilter" where
  "CombFilter_reset c =
     c\<lparr>cf_buffer := map (\<lambda>_. 0) (cf_buffer c), cf_writeIndex := 0, cf_filterState := 0\<rparr>"

definition CombFilter_setDelayTime :: "real \<Rightarrow> CombFilter \<Rightarrow> CombFilter" where
  "CombFilter_setDelayTime delaySamples c =
     c\<lparr>cf_currentDelay := jlimit 1 (f32_round (real_of_int (cf_maxDelay c))) delaySamples\<rparr>"

definition CombFilter_setFeedback :: "real \<Rightarrow> CombFilter \<Rightarrow> CombFilter" where
  "CombFilter_setFeedback fb c = c\<lparr>cf_feedback := jlimit 0 0.999 fb\<rparr>"

definition CombFilter_setDamping :: "real \<Rightarrow> CombFilter \<Rightarrow> CombFilter" where
  "CombFilter_setDamping damp c = c\<lparr>cf_damping := jlimit 0 0.999 damp\<rparr>"

definition CombFilter_process :: "CombFilter \<Rightarrow> real \<Rightarrow> (real \<times> CombFilter) option" where
  "CombFilter_process c input =
     (let size = int (length (cf_buffer c));
          readPos0 = f32_round (f32_round (real_of_int (cf_writeIndex c)) - cf_currentDelay c);
          readPos = (if readPos0 < 0 then f32_round (readPos0 + f32_round (real_of_int size))
                     else readPos0);
          readIndex0 = to_int readPos
      in do {
        readIndex1 \<leftarrow> c_rem (readIndex0 + 1) size;
        let frac = f32_round (readPos - f32_round (real_of_int readIndex0));
        s0 \<leftarrow> rd (cf_buffer c) readIndex0;
        s1 \<leftarrow> rd (cf_buffer c) readIndex1;
        let delayed = s0 * (1 - frac) + s1 * frac;
        let filterState' = delayed * (1 - cf_damping c) + cf_filterState c * cf_damping c;
        buffer' \<leftarrow> wr (cf_buffer c) (cf_writeIndex c) (input + filterState' * cf_feedback c);
        writeIndex' \<leftarrow> c_rem (cf_writeIndex c + 1) size;
        Some (delayed, c\<lparr>cf_filterState := filterState', cf_buffer := buffer',
                          cf_writeIndex := writeIndex'\<rparr>)
      })"

definition CombFilter_processModulated ::
  "CombFilter \<Rightarrow> real \<Rightarrow> real \<Rightarrow> (real \<times> CombFilter) option" where
  "CombFilter_processModulated c input modOffset =
     (let modulatedDelay0 = f32_round (cf_currentDelay c + modOffset);
          modulatedDelay = jlimit 1 (f32_round (real_of_int (cf_maxDelay c))) modulatedDelay0;
          size = int (length (cf_buffer c));
          readPos0 = f32_round (f32_round (real_of_int (cf_writeIndex c)) - modulatedDelay);
          readPos = (if readPos0 < 0 then f32_round (readPos0 + f32_round (real_of_int size))
                     else readPos0);
          readIndex0 = to_int readPos
      in do {
        readIndex1 \<leftarrow> c_rem (readIndex0 + 1) size;
        let frac = f32_round (readPos - f32_round (real_of_int readIndex0));
        s0 \<leftarrow> rd (cf_buffer c) readIndex0;
        s1 \<leftarrow> rd (cf_buffer c) readIndex1;
        let delayed = s0 * (1 - frac) + s1 * frac;
        let filterState' = delayed * (1 - cf_damping c) + cf_filterState c * cf_damping c;
        buffer' \<leftarrow> wr (cf_buffer c) (cf_writeIndex c) (input + filterState' * cf_feedback c);
        writeIndex' \<leftarrow> c_rem (cf_writeIndex c + 1) size;
        Some (delayed, c\<lparr>cf_filterState := filterState', cf_buffer := buffer',
                          cf_writeIndex := writeIndex'\<rparr>)
      })"

section \<open>Loops and audio buffers\<close>

text \<open>A counted loop \<^verbatim>\<open>for (int i = 0; i < n; ++i) body\<close> whose body may fail is
  \<open>foldM body [0..<n]\<close>: the body is run for each index in turn on the state the previous
  iteration left, and the first failure ends the loop.\<close>

primrec foldM :: "('a \<Rightarrow> 's \<Rightarrow> 's option) \<Rightarrow> 'a list \<Rightarrow> 's \<Rightarrow> 's option" where
  "foldM f [] s = Some s"
| "foldM f (x # xs) s = (case f x s of None \<Rightarrow> None | Some s' \<Rightarrow> foldM f xs s')"

text \<open>\<^verbatim>\<open>juce::AudioBuffer<float>\<close>: a number of samples and one list of samples for each
  channel. \<^verbatim>\<open>getSample\<close> and \<^verbatim>\<open>setSample\<close> outside the buffer are failures.\<close>

record AudioBuffer =
  ab_numSamples :: nat
  ab_data :: "real list list"

definition AudioBuffer_new :: "nat \<Rightarrow> nat \<Rightarrow> AudioBuffer" where
  "AudioBuffer_new numChannels numSamples =
     \<lparr>ab_numSamples = numSamples, ab_data = replicate numChannels (replicate numSamples 0)\<rparr>"

definition getNumChannels :: "AudioBuffer \<Rightarrow> int" where
  "getNumChannels b = int (length (ab_data b))"

definition getSample :: "AudioBuffer \<Rightarrow> nat \<Rightarrow> nat \<Rightarrow> real option" where
  "getSample b ch i = do { c \<leftarrow> rd (ab_data b) (int ch); rd c (int i) }"

definition setSample :: "AudioBuffer \<Rightarrow> nat \<Rightarrow> nat \<Rightarrow> real \<Rightarrow> AudioBuffer option" where
  "setSample b ch i x = do {
     c \<leftarrow> rd (ab_data b) (int ch);
     c' \<leftarrow> wr c (int i) x;
     Some (b\<lparr>ab_data := (ab_data b)[ch := c']\<rparr>)
   }"

text \<open>\<^verbatim>\<open>dest.copyFrom (destChannel, 0, source, sourceChannel, 0, numSamples)\<close>.\<close>

definition copyFrom :: "AudioBuffer \<Rightarrow> nat \<Rightarrow> AudioBuffer \<Rightarrow> nat \<Rightarrow> nat \<Rightarrow> AudioBuffer option" where
  "copyFrom dest destChannel source sourceChannel numSamples = do {
     d \<leftarrow> rd (ab_data dest) (int destChannel);
     c \<leftarrow> rd (ab_data source) (int sourceChannel);
     if numSamples \<le> length d \<and> numSamples \<le> length c
     then Some (dest\<lparr>ab_data := (ab_data dest)[destChannel := take numSamples c @ drop numSamples d]\<rparr>)
     else None
   }"

definition buffer_ok :: "AudioBuffer \<Rightarrow> bool" where
  "buffer_ok b \<longleftrightarrow> list_all (\<lambda>c. length c = ab_numSamples b) (ab_data b)"

section \<open>The JUCE IIR filter\<close>

text \<open>
  \<^verbatim>\<open>juce::dsp::IIR::Filter\<close>, \<^verbatim>\<open>juce::dsp::IIR::Coefficients\<close> and
  \<^verbatim>\<open>juce::dsp::ProcessorDuplicator\<close> belong to the JUCE library, not to the repository.
  Every coefficient set the core asks for (\<^verbatim>\<open>makeLowPass\<close>, \<^verbatim>\<open>makeHighPass\<close>,
  \<^verbatim>\<open>makeLowShelf\<close>, \<^verbatim>\<open>makeBandPass\<close> with a quality factor) is a second-order section,
  which JUCE runs in transposed direct form II on two state variables per channel. The
  values of the coefficients are left open: the design functions are a parameter
  (\<open>IIRDesign\<close>) of every operation that computes coefficients.
\<close>

record IIRCoefficients =
  co_b0 :: real
  co_b1 :: real
  co_b2 :: real
  co_a1 :: real
  co_a2 :: real

record IIRFilter =
  iir_v1 :: real
  iir_v2 :: real

record IIRDesign =
  makeLowPass :: "real \<Rightarrow> real \<Rightarrow> real \<Rightarrow> IIRCoefficients"
  makeHighPass :: "real \<Rightarrow> real \<Rightarrow> real \<Rightarrow> IIRCoefficients"
  makeBandPass :: "real \<Rightarrow> real \<Rightarrow> real \<Rightarrow> IIRCoefficients"
  makeLowShelf :: "real \<Rightarrow> real \<Rightarrow> real \<Rightarrow> real \<Rightarrow> IIRCoefficients"

definition IIRFilter_reset :: "IIRFilter \<Rightarrow> IIRFilter" where
  "IIRFilter_reset f = f\<lparr>iir_v1 := 0, iir_v2 := 0\<rparr>"

definition IIRFilter_processSample :: "IIRCoefficients \<Rightarrow> IIRFilter \<Rightarrow> real \<Rightarrow> real \<times> IIRFilter" where
  "IIRFilter_processSample co f input =
     (let output = input * co_b0 co + iir_v1 f
      in (output,
          f\<lparr>iir_v1 := input * co_b1 co - output * co_a1 co + iir_v2 f,
            iir_v2 := input * co_b2 co - output * co_a2 co\<rparr>))"

fun IIRFilter_process :: "IIRCoefficients \<Rightarrow> IIRFilter \<Rightarrow> real list \<Rightarrow> real list \<times> IIRFilter" where
  "IIRFilter_process co f [] = ([], f)"
| "IIRFilter_process co f (x # xs) =
     (let (y, f') = IIRFilter_processSample co f x;
          (ys, f'') = IIRFilter_process co f' xs
      in (y # ys, f''))"

text \<open>The duplicator holds one coefficient set (\<^verbatim>\<open>state\<close>) and one filter for each
  channel it was prepared for; a block with more channels than that is a failure. Filters
  beyond the channels of the block are left alone.\<close>

record ProcessorDuplicator =
  pd_state :: IIRCoefficients
  pd_filters :: "IIRFilter list"

definition ProcessorDuplicator_reset :: "ProcessorDuplicator \<Rightarrow> ProcessorDuplicator" where
  "ProcessorDuplicator_reset p = p\<lparr>pd_filters := map IIRFilter_reset (pd_filters p)\<rparr>"

definition ProcessorDuplicator_process ::
  "ProcessorDuplicator \<Rightarrow> AudioBuffer \<Rightarrow> (ProcessorDuplicator \<times> AudioBuffer) option" where
  "ProcessorDuplicator_process p b =
     (let n = length (ab_data b) in
      if n \<le> length (pd_filters p)
      then let rs = map2 (IIRFilter_process (pd_state p)) (take n (pd_filters p)) (ab_data b)
           in Some (p\<lparr>pd_filters := map snd rs @ drop n (pd_filters p)\<rparr>,
                    b\<lparr>ab_data := map fst rs\<rparr>)
      else None)"

text \<open>\<^verbatim>\<open>prepare (spec)\<close> gives the duplicator one filter with cleared state for each of
  the \<^verbatim>\<open>spec.numChannels\<close> channels.\<close>

definition ProcessorDuplicator_new :: ProcessorDuplicator where
  "ProcessorDuplicator_new =
     \<lparr>pd_state = \<lparr>co_b0 = 1, co_b1 = 0, co_b2 = 0, co_a1 = 0, co_a2 = 0\<rparr>, pd_filters = []\<rparr>"

definition ProcessorDuplicator_prepare :: "nat \<Rightarrow> ProcessorDuplicator \<Rightarrow> ProcessorDuplicator" where
  "ProcessorDuplicator_prepare numChannels p =
     p\<lparr>pd_filters := replicate numChannels \<lparr>iir_v1 = 0, iir_v2 = 0\<rparr>\<rparr>"

text \<open>\<^verbatim>\<open>juce::Decibels::decibelsToGain\<close> with its default floor of -100 dB.\<close>

definition decibelsToGain :: "real \<Rightarrow> real" where
  "decibelsToGain decibels = (if decibels > - 100 then 10 powr (decibels * 0.05) else 0)"

section \<open>ModulationEngine\<close>

record ModulationEngine =
  me_sampleRate :: real
  me_chaosAmount :: real
  me_maxDepthSamples :: real
  me_lfoPhases :: "real list"
  me_lfoFrequencies :: "real list"
  me_driftValues :: "real list"
  me_driftTargets :: "real list"
  me_smoothedOutputs :: "real list"
  me_driftCounter :: int

definition NumLFOs :: nat where "NumLFOs = 6"
definition NumOutputs :: nat where "NumOutputs = 8"

definition twoPi :: real where "twoPi = 2 * pi"

definition goldenRatio :: real where "goldenRatio = 1.618033988749895"

definition ModulationEngine_new :: ModulationEngine where
  "ModulationEngine_new =
     \<lparr>me_sampleRate = 44100, me_chaosAmount = 0.3, me_maxDepthSamples = 40,
      me_lfoPhases = replicate NumLFOs 0, me_lfoFrequencies = replicate NumLFOs 0,
      me_driftValues = replicate NumOutputs 0, me_driftTargets = replicate NumOutputs 0,
      me_smoothedOutputs = replicate NumOutputs 0, me_driftCounter = 0\<rparr>"

definition ModulationEngine_reset :: "ModulationEngine \<Rightarrow> ModulationEngine" where
  "ModulationEngine_reset m =
     m\<lparr>me_lfoPhases := map (\<lambda>i. real i * 0.37) [0..<NumLFOs],
       me_driftValues := map (\<lambda>i. 0) [0..<NumOutputs],
       me_driftTargets := map (\<lambda>i. 0) [0..<NumOutputs],
       me_smoothedOutputs := map (\<lambda>i. 0) [0..<NumOutputs]\<rparr>"

definition ModulationEngine_setChaos :: "real \<Rightarrow> ModulationEngine \<Rightarrow> ModulationEngine" where
  "ModulationEngine_setChaos chaos m =
     (let chaosAmount = jlimit 0 1 chaos;
          baseFreq = 0.15 + chaosAmount * 0.5
      in m\<lparr>me_chaosAmount := chaosAmount,
           me_lfoFrequencies := map (\<lambda>i. baseFreq * (goldenRatio powr (real i * 0.7))) [0..<NumLFOs],
           me_maxDepthSamples := 20 + chaosAmount * 60\<rparr>)"

text \<open>\<^verbatim>\<open>getModulation\<close> returns a \<^verbatim>\<open>float\<close>; the result \<open>None\<close> stands for a read
  outside \<^verbatim>\<open>smoothedOutputs\<close>.\<close>

definition ModulationEngine_getModulation :: "ModulationEngine \<Rightarrow> int \<Rightarrow> real option" where
  "ModulationEngine_getModulation m outputIndex =
     (if outputIndex < 0 \<or> outputIndex \<ge> int NumOutputs then Some 0
      else rd (me_smoothedOutputs m) outputIndex)"

definition getLFOValue :: "real list \<Rightarrow> nat \<Rightarrow> real" where
  "getLFOValue lfoPhases lfoIndex =
     (let phase = lfoPhases ! lfoIndex in
      if lfoIndex mod 4 = 0 then sin phase
      else if lfoIndex mod 4 = 1 then
        (let tri = (if phase < pi then 2 * phase / pi - 1 else 3 - 2 * phase / pi)
         in tri * tri * tri * 0.5 + tri * 0.5)
      else if lfoIndex mod 4 = 2 then
        sin phase * 0.7 + sin (phase * 2) * 0.2 + sin (phase * 3) * 0.1
      else (let s = sin phase in s * (1 + 0.3 * s * s)))"

definition primes :: "nat list" where
  "primes = [7, 11, 13, 17, 19, 23, 29, 31]"

definition getMixWeight :: "nat \<Rightarrow> nat \<Rightarrow> real" where
  "getMixWeight outputIndex lfoIndex =
     (let seed = primes ! (outputIndex mod 8) * (lfoIndex + 1) + outputIndex;
          weight = real (seed mod 100) / 100 - 0.5
      in weight * (1 - real lfoIndex * 0.12))"

text \<open>\<^verbatim>\<open>updateDriftTargets\<close> draws eight numbers from \<^verbatim>\<open>std::random_device\<close>. The draws
  are an argument: \<open>draw i\<close> is the number the generator hands out for output \<open>i\<close>.\<close>

definition updateDriftTargets :: "(nat \<Rightarrow> real) \<Rightarrow> ModulationEngine \<Rightarrow> ModulationEngine" where
  "updateDriftTargets draw m = m\<lparr>me_driftTargets := map draw [0..<NumOutputs]\<rparr>"

text \<open>\<^verbatim>\<open>prepare\<close> draws one number for the phase of each oscillator (\<open>phaseDraw\<close>) and
  then the eight drift targets (\<open>draw\<close>).\<close>

definition ModulationEngine_prepare ::
  "(nat \<Rightarrow> real) \<Rightarrow> (nat \<Rightarrow> real) \<Rightarrow> real \<Rightarrow> ModulationEngine \<Rightarrow> ModulationEngine" where
  "ModulationEngine_prepare phaseDraw draw sr m =
     (let baseFreq = 0.23
      in updateDriftTargets draw
           (m\<lparr>me_sampleRate := sr,
              me_lfoFrequencies := map (\<lambda>i. baseFreq * (goldenRatio powr (real i * 0.7))) [0..<NumLFOs],
              me_lfoPhases := map (\<lambda>i. real i * 0.37 + phaseDraw i * 0.3) [0..<NumLFOs],
              me_driftValues := map (\<lambda>i. 0) [0..<NumOutputs],
              me_driftTargets := map (\<lambda>i. 0) [0..<NumOutputs]\<rparr>))"

definition ModulationEngine_processSample :: "(nat \<Rightarrow> real) \<Rightarrow> ModulationEngine \<Rightarrow> ModulationEngine" where
  "ModulationEngine_processSample draw m =
     (let lfoPhases = map (\<lambda>i.
            let phaseIncrement = me_lfoFrequencies m ! i / me_sampleRate m;
                phase = me_lfoPhases m ! i + phaseIncrement * twoPi
            in if phase > twoPi then phase - twoPi else phase) [0..<NumLFOs];
          counter = me_driftCounter m + 1;
          m1 = (if counter > to_int (me_sampleRate m * 2)
                then (updateDriftTargets draw m)\<lparr>me_driftCounter := 0\<rparr>
                else m\<lparr>me_driftCounter := counter\<rparr>);
          driftSmooth = 0.9999;
          driftValues = map (\<lambda>i. me_driftValues m1 ! i * driftSmooth
                                   + me_driftTargets m1 ! i * (1 - driftSmooth)) [0..<NumOutputs];
          smoothCoeff = 0.995;
          smoothedOutputs = map (\<lambda>out.
            let mix = foldl (\<lambda>modValue lfo. modValue + getLFOValue lfoPhases lfo * getMixWeight out lfo)
                        0 [0..<NumLFOs];
                modValue = (mix + driftValues ! out * me_chaosAmount m1 * 0.3) * me_maxDepthSamples m1
            in me_smoothedOutputs m1 ! out * smoothCoeff + modValue * (1 - smoothCoeff)) [0..<NumOutputs]
      in m1\<lparr>me_lfoPhases := lfoPhases, me_driftValues := driftValues,
            me_smoothedOutputs := smoothedOutputs\<rparr>)"

section \<open>DiffusionNetwork\<close>

record DiffusionNetwork =
  dn_allpassFilters :: "AllpassFilter list list"
  dn_lowMidFilter :: ProcessorDuplicator
  dn_sampleRate :: real
  dn_thrustAmount :: real

definition NumStages :: nat where "NumStages = 8"
definition NumChannels :: nat where "NumChannels = 2"

definition updateThrustFilter :: "IIRDesign \<Rightarrow> DiffusionNetwork \<Rightarrow> DiffusionNetwork" where
  "updateThrustFilter J d =
     (let boostDb = dn_thrustAmount d * 6
      in d\<lparr>dn_lowMidFilter := (dn_lowMidFilter d)
             \<lparr>pd_state := makeLowShelf J (dn_sampleRate d) 400 0.7 (decibelsToGain boostDb)\<rparr>\<rparr>)"

definition DiffusionNetwork_new :: DiffusionNetwork where
  "DiffusionNetwork_new =
     \<lparr>dn_allpassFilters = replicate NumChannels (replicate NumStages AllpassFilter_new),
      dn_lowMidFilter = ProcessorDuplicator_new, dn_sampleRate = 44100, dn_thrustAmount = 0.5\<rparr>"

text \<open>The delay times of \<^verbatim>\<open>prepare\<close> as the source writes them. They are \<^verbatim>\<open>float\<close>
  literals: each stands for the binary32 number nearest to it, and the channel offset is
  added to it in \<^verbatim>\<open>float\<close>. The product with the sample rate and the division by 1000
  are \<^verbatim>\<open>double\<close> operations.\<close>

definition stageDelayTimesMs :: "real list" where
  "stageDelayTimesMs = [1.3, 2.1, 3.4, 5.5, 8.9, 14.4, 23.3, 37.7]"

definition DiffusionNetwork_prepare :: "IIRDesign \<Rightarrow> real \<Rightarrow> DiffusionNetwork \<Rightarrow> DiffusionNetwork" where
  "DiffusionNetwork_prepare J sr d =
     updateThrustFilter J
       (d\<lparr>dn_sampleRate := sr,
          dn_allpassFilters := map (\<lambda>ch. map (\<lambda>i.
              let offset = (if ch = 0 then 0 else f32_round 0.07);
                  delayMs = f32_round (f32_round (stageDelayTimesMs ! i) + offset);
                  delaySamples = to_int (f64_round (f64_round (delayMs * sr) / 1000))
              in AllpassFilter_setFeedback 0.5
                   (AllpassFilter_setDelayTime (f32_round (real_of_int delaySamples))
                      (AllpassFilter_prepare sr (delaySamples + 100) (dn_allpassFilters d ! ch ! i))))
            [0..<NumStages]) [0..<NumChannels],
          dn_lowMidFilter := ProcessorDuplicator_prepare NumChannels (dn_lowMidFilter d)\<rparr>)"

definition DiffusionNetwork_reset :: "DiffusionNetwork \<Rightarrow> DiffusionNetwork" where
  "DiffusionNetwork_reset d =
     d\<lparr>dn_allpassFilters := map (map AllpassFilter_reset) (dn_allpassFilters d),
       dn_lowMidFilter := ProcessorDuplicator_reset (dn_lowMidFilter d)\<rparr>"

definition DiffusionNetwork_setThrust :: "IIRDesign \<Rightarrow> real \<Rightarrow> DiffusionNetwork \<Rightarrow> DiffusionNetwork" where
  "DiffusionNetwork_setThrust J thrust d =
     (let thrustAmount = jlimit 0 1 thrust;
          baseFeedback = 0.3 + thrustAmount * 0.45
      in updateThrustFilter J
           (d\<lparr>dn_thrustAmount := thrustAmount,
              dn_allpassFilters := map (\<lambda>ch. map (\<lambda>i.
                  let stageFeedback = baseFeedback + (real i / real NumStages) * 0.1
                  in AllpassFilter_setFeedback (jlimit 0 0.75 stageFeedback)
                       (dn_allpassFilters d ! ch ! i)) [0..<NumStages]) [0..<NumChannels]\<rparr>))"

text \<open>\<^verbatim>\<open>2 + thrustAmount * (NumStages - 2)\<close> is a \<^verbatim>\<open>float\<close> expression: the two integers
  are converted to \<^verbatim>\<open>float\<close> without error, and the product and the sum are each
  rounded to binary32 before the conversion to \<^verbatim>\<open>int\<close> truncates.\<close>

definition getActiveStages :: "DiffusionNetwork \<Rightarrow> int" where
  "getActiveStages d =
     to_int (f32_round (2 + f32_round (dn_thrustAmount d * real (NumStages - 2))))"

definition dn_stage ::
  "nat \<Rightarrow> nat \<Rightarrow> real \<times> DiffusionNetwork \<Rightarrow> (real \<times> DiffusionNetwork) option" where
  "dn_stage ch stage = (\<lambda>(sample, d). do {
     row \<leftarrow> rd (dn_allpassFilters d) (int ch);
     a \<leftarrow> rd row (int stage);
     (y, a') \<leftarrow> AllpassFilter_process a sample;
     Some (y, d\<lparr>dn_allpassFilters := (dn_allpassFilters d)[ch := row[stage := a']]\<rparr>)
   })"

definition dn_sample ::
  "int \<Rightarrow> nat \<Rightarrow> nat \<Rightarrow> DiffusionNetwork \<times> AudioBuffer \<Rightarrow> (DiffusionNetwork \<times> AudioBuffer) option" where
  "dn_sample activeStages ch i = (\<lambda>(d, b). do {
     sample \<leftarrow> getSample b ch i;
     (sample', d') \<leftarrow> foldM (dn_stage ch) [0..<nat activeStages] (sample, d);
     b' \<leftarrow> setSample b ch i sample';
     Some (d', b')
   })"

definition DiffusionNetwork_process ::
  "DiffusionNetwork \<Rightarrow> AudioBuffer \<Rightarrow> (DiffusionNetwork \<times> AudioBuffer) option" where
  "DiffusionNetwork_process d buffer =
     (let numSamples = ab_numSamples buffer;
          activeStages = getActiveStages d
      in do {
        (d1, b1) \<leftarrow> foldM (\<lambda>ch. foldM (dn_sample activeStages ch) [0..<numSamples])
                      [0..<nat (jmin (getNumChannels buffer) (int NumChannels))] (d, buffer);
        if dn_thrustAmount d1 > 0.01
        then do {
          (f, b2) \<leftarrow> ProcessorDuplicator_process (dn_lowMidFilter d1) b1;
          Some (d1\<lparr>dn_lowMidFilter := f\<rparr>, b2)
        }
        else Some (d1, b1)
      })"

section \<open>AlgorithmicReverb\<close>

record AlgorithmicReverb =
  ar_sampleRate :: real
  ar_blockSize :: int
  ar_preDelayBuffer :: "real list list"
  ar_preDelayWriteIndex :: int
  ar_preDelaySamples :: int
  ar_diffusionNetwork :: DiffusionNetwork
  ar_combFilters :: "CombFilter list list"
  ar_modulationEngine :: ModulationEngine
  ar_highCutFilter :: ProcessorDuplicator
  ar_lowCutFilter :: ProcessorDuplicator
  ar_decayTime :: real
  ar_highCutFreq :: real
  ar_lowCutFreq :: real
  ar_width :: real
  ar_decayEnvelope :: real

definition NumCombFilters :: nat where "NumCombFilters = 8"

text \<open>The comb delay times in milliseconds, as \<^verbatim>\<open>prepare\<close> and \<^verbatim>\<open>updateDecay\<close> write
  them.\<close>

definition delayTimesMs :: "real list" where
  "delayTimesMs = [29.7, 37.1, 41.1, 43.7, 47.3, 53.0, 59.3, 67.1]"

definition updateDecay :: "AlgorithmicReverb \<Rightarrow> AlgorithmicReverb" where
  "updateDecay s =
     s\<lparr>ar_combFilters := map (\<lambda>ch. map (\<lambda>i.
          let delayMs = delayTimesMs ! i + (if ch = 0 then 0 else 1.7);
              delaySeconds = delayMs / 1000;
              feedback0 = 10 powr (- 3 * delaySeconds / ar_decayTime s);
              feedback = jlimit 0 0.998 feedback0;
              dampingAmount0 = 1 - (ar_highCutFreq s - 1000) / 19000;
              dampingAmount = jlimit 0 0.7 (dampingAmount0 * 0.7)
          in CombFilter_setDamping dampingAmount
               (CombFilter_setFeedback feedback (ar_combFilters s ! ch ! i)))
        [0..<NumCombFilters]) [0..<2]\<rparr>"

definition updateFilters :: "IIRDesign \<Rightarrow> AlgorithmicReverb \<Rightarrow> AlgorithmicReverb" where
  "updateFilters J s =
     s\<lparr>ar_highCutFilter := (ar_highCutFilter s)
          \<lparr>pd_state := makeLowPass J (ar_sampleRate s) (ar_highCutFreq s) 0.707\<rparr>,
       ar_lowCutFilter := (ar_lowCutFilter s)
          \<lparr>pd_state := makeHighPass J (ar_sampleRate s) (ar_lowCutFreq s) 0.707\<rparr>\<rparr>"

definition AlgorithmicReverb_new :: AlgorithmicReverb where
  "AlgorithmicReverb_new =
     \<lparr>ar_sampleRate = 44100, ar_blockSize = 512, ar_preDelayBuffer = [[], []],
      ar_preDelayWriteIndex = 0, ar_preDelaySamples = 0,
      ar_diffusionNetwork = DiffusionNetwork_new,
      ar_combFilters = replicate 2 (replicate NumCombFilters CombFilter_new),
      ar_modulationEngine = ModulationEngine_new,
      ar_highCutFilter = ProcessorDuplicator_new, ar_lowCutFilter = ProcessorDuplicator_new,
      ar_decayTime = 5, ar_highCutFreq = 12000, ar_lowCutFreq = 80, ar_width = 1,
      ar_decayEnvelope = 0\<rparr>"

definition AlgorithmicReverb_prepare ::
  "IIRDesign \<Rightarrow> (nat \<Rightarrow> real) \<Rightarrow> (nat \<Rightarrow> real) \<Rightarrow> real \<Rightarrow> int \<Rightarrow>
   AlgorithmicReverb \<Rightarrow> AlgorithmicReverb" where
  "AlgorithmicReverb_prepare J phaseDraw draw sr maxBlockSize s =
     (let maxPreDelaySamples = to_int (f64_round (0.5 * sr))
      in updateDecay (updateFilters J
           (s\<lparr>ar_sampleRate := sr, ar_blockSize := maxBlockSize,
              ar_preDelayBuffer := map (\<lambda>ch. replicate (nat maxPreDelaySamples) 0) [0..<2],
              ar_preDelayWriteIndex := 0,
              ar_diffusionNetwork := DiffusionNetwork_prepare J sr (ar_diffusionNetwork s),
              ar_combFilters := map (\<lambda>ch. map (\<lambda>i.
                  let offset = (if ch = 0 then 0 else f32_round 1.7);
                      delayMs = f32_round (f32_round (delayTimesMs ! i) + offset);
                      delaySamples = to_int (f64_round (f64_round (delayMs * sr) / 1000))
                  in CombFilter_setDelayTime (f32_round (real_of_int delaySamples))
                       (CombFilter_prepare sr (delaySamples + 200) (ar_combFilters s ! ch ! i)))
                [0..<NumCombFilters]) [0..<2],
              ar_modulationEngine := ModulationEngine_prepare phaseDraw draw sr (ar_modulationEngine s),
              ar_highCutFilter := ProcessorDuplicator_prepare 2 (ar_highCutFilter s),
              ar_lowCutFilter := ProcessorDuplicator_prepare 2 (ar_lowCutFilter s)\<rparr>)))"

definition AlgorithmicReverb_reset :: "AlgorithmicReverb \<Rightarrow> AlgorithmicReverb" where
  "AlgorithmicReverb_reset s =
     s\<lparr>ar_preDelayBuffer := map (map (\<lambda>_. 0)) (ar_preDelayBuffer s),
       ar_combFilters := map (map CombFilter_reset) (ar_combFilters s),
       ar_preDelayWriteIndex := 0,
       ar_diffusionNetwork := DiffusionNetwork_reset (ar_diffusionNetwork s),
       ar_modulationEngine := ModulationEngine_reset (ar_modulationEngine s),
       ar_highCutFilter := ProcessorDuplicator_reset (ar_highCutFilter s),
       ar_lowCutFilter := ProcessorDuplicator_reset (ar_lowCutFilter s)\<rparr>"

definition setDecay :: "real \<Rightarrow> AlgorithmicReverb \<Rightarrow> AlgorithmicReverb" where
  "setDecay decaySeconds s = updateDecay (s\<lparr>ar_decayTime := jlimit 0.5 30 decaySeconds\<rparr>)"

text \<open>\<^verbatim>\<open>preDelayMs * sampleRate / 1000.0\<close> is computed in \<^verbatim>\<open>double\<close> and converted to
  \<^verbatim>\<open>int\<close> before it is clamped; for a pre-delay that does not fit an \<^verbatim>\<open>int\<close> the
  conversion is undefined.\<close>

definition setPreDelay :: "real \<Rightarrow> AlgorithmicReverb \<Rightarrow> AlgorithmicReverb option" where
  "setPreDelay preDelayMs s = do {
     preDelaySamples \<leftarrow> to_int_checked (f64_round (f64_round (preDelayMs * ar_sampleRate s) / 1000));
     Some (s\<lparr>ar_preDelaySamples :=
              jlimit 0 (int (length (ar_preDelayBuffer s ! 0)) - 1) preDelaySamples\<rparr>)
   }"

definition setHighCut :: "IIRDesign \<Rightarrow> real \<Rightarrow> AlgorithmicReverb \<Rightarrow> AlgorithmicReverb" where
  "setHighCut J freqHz s = updateFilters J (s\<lparr>ar_highCutFreq := jlimit 1000 20000 freqHz\<rparr>)"

definition setLowCut :: "IIRDesign \<Rightarrow> real \<Rightarrow> AlgorithmicReverb \<Rightarrow> AlgorithmicReverb" where
  "setLowCut J freqHz s = updateFilters J (s\<lparr>ar_lowCutFreq := jlimit 20 500 freqHz\<rparr>)"

definition setWidth :: "real \<Rightarrow> AlgorithmicReverb \<Rightarrow> AlgorithmicReverb" where
  "setWidth w s = s\<lparr>ar_width := jlimit 0 2 w\<rparr>"

definition setDiffusionThrust :: "IIRDesign \<Rightarrow> real \<Rightarrow> AlgorithmicReverb \<Rightarrow> AlgorithmicReverb" where
  "setDiffusionThrust J thrust s =
     s\<lparr>ar_diffusionNetwork := DiffusionNetwork_setThrust J thrust (ar_diffusionNetwork s)\<rparr>"

definition setModulationChaos :: "real \<Rightarrow> AlgorithmicReverb \<Rightarrow> AlgorithmicReverb" where
  "setModulationChaos chaos s =
     s\<lparr>ar_modulationEngine := ModulationEngine_setChaos chaos (ar_modulationEngine s)\<rparr>"

definition getDecayEnvelope :: "AlgorithmicReverb \<Rightarrow> real" where
  "getDecayEnvelope s = ar_decayEnvelope s"

subsection \<open>\<^verbatim>\<open>AlgorithmicReverb::process\<close>, loop by loop\<close>

text \<open>The body of the first loop: the modulation engine advances by one sample
  (\<open>draws sample\<close> are the numbers its random generator would hand out in this call), the
  input sample is written to the pre-delay lines and the delayed sample is read into the
  wet buffer.\<close>

definition preDelay_sample ::
  "AudioBuffer \<Rightarrow> (nat \<Rightarrow> nat \<Rightarrow> real) \<Rightarrow> int \<Rightarrow> nat \<Rightarrow>
   AlgorithmicReverb \<times> AudioBuffer \<Rightarrow> (AlgorithmicReverb \<times> AudioBuffer) option" where
  "preDelay_sample buffer draws numChannels sample = (\<lambda>(s, wetBuffer). do {
     let modulationEngine = ModulationEngine_processSample (draws sample) (ar_modulationEngine s);
     pre0 \<leftarrow> rd (ar_preDelayBuffer s) 0;
     pre1 \<leftarrow> rd (ar_preDelayBuffer s) 1;
     let size = int (length pre0);
     let readIndex0 = ar_preDelayWriteIndex s - ar_preDelaySamples s;
     let preDelayReadIndex = (if readIndex0 < 0 then readIndex0 + size else readIndex0);
     leftIn \<leftarrow> (if numChannels > 0 then getSample buffer 0 sample else Some 0);
     rightIn \<leftarrow> (if numChannels > 1 then getSample buffer 1 sample else Some leftIn);
     pre0' \<leftarrow> wr pre0 (ar_preDelayWriteIndex s) leftIn;
     pre1' \<leftarrow> wr pre1 (ar_preDelayWriteIndex s) rightIn;
     preDelayWriteIndex \<leftarrow> c_rem (ar_preDelayWriteIndex s + 1) size;
     leftDelayed \<leftarrow> rd pre0' preDelayReadIndex;
     rightDelayed \<leftarrow> rd pre1' preDelayReadIndex;
     wet1 \<leftarrow> setSample wetBuffer 0 sample leftDelayed;
     wet2 \<leftarrow> setSample wet1 1 sample rightDelayed;
     Some (s\<lparr>ar_modulationEngine := modulationEngine,
              ar_preDelayBuffer := (ar_preDelayBuffer s)[0 := pre0', 1 := pre1'],
              ar_preDelayWriteIndex := preDelayWriteIndex\<rparr>, wet2)
   })"

text \<open>The comb bank: the innermost loop over the eight comb filters of one channel, the
  loop over the two channels, and one sample of the outer loop.\<close>

definition comb_filter_step ::
  "nat \<Rightarrow> real \<Rightarrow> nat \<Rightarrow> real \<times> AlgorithmicReverb \<Rightarrow> (real \<times> AlgorithmicReverb) option" where
  "comb_filter_step ch input i = (\<lambda>(combSum, s). do {
     modOffset \<leftarrow> ModulationEngine_getModulation (ar_modulationEngine s) (int i);
     row \<leftarrow> rd (ar_combFilters s) (int ch);
     c \<leftarrow> rd row (int i);
     (combOut, c') \<leftarrow> CombFilter_processModulated c (input / real NumCombFilters) modOffset;
     let sign = (if (i + ch) mod 2 = 0 then 1 else - 1);
     Some (combSum + combOut * sign, s\<lparr>ar_combFilters := (ar_combFilters s)[ch := row[i := c']]\<rparr>)
   })"

definition comb_channel ::
  "nat \<Rightarrow> nat \<Rightarrow> AlgorithmicReverb \<times> AudioBuffer \<Rightarrow> (AlgorithmicReverb \<times> AudioBuffer) option" where
  "comb_channel sample ch = (\<lambda>(s, wetBuffer). do {
     input \<leftarrow> getSample wetBuffer ch sample;
     (combSum, s') \<leftarrow> foldM (comb_filter_step ch input) [0..<NumCombFilters] (0, s);
     wet' \<leftarrow> setSample wetBuffer ch sample combSum;
     Some (s', wet')
   })"

definition comb_sample ::
  "nat \<Rightarrow> AlgorithmicReverb \<times> AudioBuffer \<Rightarrow> (AlgorithmicReverb \<times> AudioBuffer) option" where
  "comb_sample sample = foldM (comb_channel sample) [0..<2]"

text \<open>Step 5 of the pipeline, the stereo width.\<close>

definition width_sample :: "real \<Rightarrow> nat \<Rightarrow> AudioBuffer \<Rightarrow> AudioBuffer option" where
  "width_sample width sample wetBuffer = do {
     left \<leftarrow> getSample wetBuffer 0 sample;
     right \<leftarrow> getSample wetBuffer 1 sample;
     let mid = (left + right) * 0.5;
     let side = (left - right) * 0.5 * width;
     wet1 \<leftarrow> setSample wetBuffer 0 sample (mid + side);
     setSample wet1 1 sample (mid - side)
   }"

definition applyStereoWidth :: "real \<Rightarrow> nat \<Rightarrow> AudioBuffer \<Rightarrow> AudioBuffer option" where
  "applyStereoWidth width numSamples wetBuffer =
     (if \<bar>width - 1\<bar> > 0.01 then foldM (width_sample width) [0..<numSamples] wetBuffer
      else Some wetBuffer)"

text \<open>The peak of the wet block, for the decay envelope.\<close>

definition blockPeak :: "AudioBuffer \<Rightarrow> nat \<Rightarrow> real option" where
  "blockPeak wetBuffer numSamples =
     foldM (\<lambda>ch. foldM (\<lambda>sample maxSample. do {
                x \<leftarrow> getSample wetBuffer ch sample;
                Some (jmax maxSample \<bar>x\<bar>)
              }) [0..<numSamples])
       [0..<nat (getNumChannels wetBuffer)] 0"

definition AlgorithmicReverb_process ::
  "(nat \<Rightarrow> nat \<Rightarrow> real) \<Rightarrow> AlgorithmicReverb \<Rightarrow> AudioBuffer \<Rightarrow>
   (AlgorithmicReverb \<times> AudioBuffer) option" where
  "AlgorithmicReverb_process draws s buffer =
     (let numSamples = ab_numSamples buffer;
          numChannels = jmin (getNumChannels buffer) 2;
          wetBuffer = AudioBuffer_new 2 numSamples
      in do {
        (s1, wet1) \<leftarrow> foldM (preDelay_sample buffer draws numChannels) [0..<numSamples] (s, wetBuffer);
        (dn, wet2) \<leftarrow> DiffusionNetwork_process (ar_diffusionNetwork s1) wet1;
        let s2 = s1\<lparr>ar_diffusionNetwork := dn\<rparr>;
        (s3, wet3) \<leftarrow> foldM comb_sample [0..<numSamples] (s2, wet2);
        (hc, wet4) \<leftarrow> ProcessorDuplicator_process (ar_highCutFilter s3) wet3;
        (lc, wet5) \<leftarrow> ProcessorDuplicator_process (ar_lowCutFilter s3) wet4;
        wet6 \<leftarrow> applyStereoWidth (ar_width s3) numSamples wet5;
        maxSample \<leftarrow> blockPeak wet6 numSamples;
        let s4 = s3\<lparr>ar_highCutFilter := hc, ar_lowCutFilter := lc,
                    ar_decayEnvelope := ar_decayEnvelope s3 * 0.99 + maxSample * 0.01\<rparr>;
        buffer' \<leftarrow> foldM (\<lambda>ch b. copyFrom b ch wet6 ch numSamples) [0..<nat numChannels] buffer;
        Some (s4, buffer')
      })"

section \<open>FairingSeparation\<close>

subsection \<open>The state machine of the effect\<close>

text \<open>
  The record holds the members that decide whether the effect is active: tempo, duration,
  phase, envelope and sweep direction. The band-pass filter and the two delay lines of the
  class are left out: \<^verbatim>\<open>process\<close> reads the envelope and the phase to drive them, and
  nothing it computes from them is written back to the members below.

  Every function that computes on \<^verbatim>\<open>float\<close> phase values takes the rounding \<open>rnd\<close> of a
  \<^verbatim>\<open>float\<close> operation as an argument: \<open>f32_round\<close> is the compiled code, the identity is
  exact arithmetic. The \<^verbatim>\<open>double\<close> computation of the duration and the smoothing of the
  envelope are exact.
\<close>

record FairingSeparation =
  fs_sampleRate :: real
  fs_currentBPM :: real
  fs_syncBeats :: real
  fs_isActive :: bool
  fs_currentPhase :: real
  fs_gainEnvelope :: real
  fs_sweepDirection :: int
  fs_lastSweepDirection :: int

definition FairingSeparation_new :: FairingSeparation where
  "FairingSeparation_new =
     \<lparr>fs_sampleRate = 44100, fs_currentBPM = 120, fs_syncBeats = 4, fs_isActive = False,
      fs_currentPhase = 0, fs_gainEnvelope = 0, fs_sweepDirection = 1,
      fs_lastSweepDirection = - 1\<rparr>"

definition FairingSeparation_prepare :: "real \<Rightarrow> FairingSeparation \<Rightarrow> FairingSeparation" where
  "FairingSeparation_prepare sr f = f\<lparr>fs_sampleRate := sr\<rparr>"

definition FairingSeparation_reset :: "FairingSeparation \<Rightarrow> FairingSeparation" where
  "FairingSeparation_reset f = f\<lparr>fs_currentPhase := 0, fs_isActive := False, fs_gainEnvelope := 0\<rparr>"

definition setSyncBeats :: "real \<Rightarrow> FairingSeparation \<Rightarrow> FairingSeparation" where
  "setSyncBeats beats f = f\<lparr>fs_syncBeats := jlimit 1 8 beats\<rparr>"




definition getIntensity :: "FairingSeparation \<Rightarrow> real" where
  "getIntensity f = fs_gainEnvelope f"

text \<open>\<^verbatim>\<open>FairingSync::getBeats\<close> of \<^verbatim>\<open>Utils/Parameters.h\<close>, the only caller's argument of
  \<^verbatim>\<open>setSyncBeats\<close>.\<close>

definition getBeats :: "int \<Rightarrow> real" where
  "getBeats index = (if index = 0 then 1 else if index = 1 then 2 else if index = 2 then 4
                     else if index = 3 then 8 else 4)"

definition phaseIncrement :: "(real \<Rightarrow> real) \<Rightarrow> FairingSeparation \<Rightarrow> real" where
  "phaseIncrement rnd f =
     (let beatsPerSecond = fs_currentBPM f / 60;
          durationSeconds = fs_syncBeats f / beatsPerSecond;
          durationSamples = durationSeconds * fs_sampleRate f
      in rnd (1 / rnd durationSamples))"




section \<open>Prepared units\<close>

text \<open>The state a unit is in between \<^verbatim>\<open>prepare\<close> and the next \<^verbatim>\<open>prepare\<close>: the buffer
  has \<open>maxDelay + 4\<close> samples, the write index is inside it, and the delay has been
  clamped into \<open>[1, maxDelay]\<close> by \<^verbatim>\<open>setDelayTime\<close>. The buffer has fewer than \<open>2 ^ 24\<close>
  samples, so that every index is a binary32 number.\<close>

definition allpass_ok :: "AllpassFilter \<Rightarrow> bool" where
  "allpass_ok a \<longleftrightarrow>
     1 \<le> ap_maxDelay a \<and> ap_maxDelay a + 4 < 2 ^ 24 \<and>
     int (length (ap_buffer a)) = ap_maxDelay a + 4 \<and>
     0 \<le> ap_writeIndex a \<and> ap_writeIndex a < int (length (ap_buffer a)) \<and>
     1 \<le> ap_currentDelay a \<and> ap_currentDelay a \<le> real_of_int (ap_maxDelay a)"

definition comb_ok :: "CombFilter \<Rightarrow> bool" where
  "comb_ok c \<longleftrightarrow>
     1 \<le> cf_maxDelay c \<and> cf_maxDelay c + 4 < 2 ^ 24 \<and>
     int (length (cf_buffer c)) = cf_maxDelay c + 4 \<and>
     0 \<le> cf_writeIndex c \<and> cf_writeIndex c < int (length (cf_buffer c)) \<and>
     1 \<le> cf_currentDelay c \<and> cf_currentDelay c \<le> real_of_int (cf_maxDelay c)"

text \<open>The wrapped read position that all four processing functions compute from the
  write index, the delay and the size of the buffer.\<close>

definition read_position :: "int \<Rightarrow> real \<Rightarrow> nat \<Rightarrow> real" where
  "read_position writeIndex delay n =
     (let readPos0 = f32_round (f32_round (real_of_int writeIndex) - delay)
      in if readPos0 < 0 then f32_round (readPos0 + f32_round (real n)) else readPos0)"

subsection \<open>The units as the specification words them\<close>

text \<open>The interpolated delay line of the specification: the read position
  \<open>writeIndex - delaySamples\<close> wrapped into the range of the buffer, and the linear
  interpolation between the two stored samples next to it.\<close>

definition wrap_position :: "real \<Rightarrow> nat \<Rightarrow> real" where
  "wrap_position p n = p - real n * real_of_int \<lfloor>p / real n\<rfloor>"

definition readInterpolated_spec :: "real list \<Rightarrow> int \<Rightarrow> real \<Rightarrow> real" where
  "readInterpolated_spec buf writeIndex delaySamples =
     (let pos = wrap_position (real_of_int writeIndex - delaySamples) (length buf);
          i0 = nat \<lfloor>pos\<rfloor>;
          i1 = (i0 + 1) mod length buf
      in buf ! i0 * (1 - (pos - real i0)) + buf ! i1 * (pos - real i0))"

text \<open>The allpass unit of the specification: the output is \<open>- feedback * input + delayed\<close>
  and \<open>input + feedback * delayed\<close> is written at the write index.\<close>

definition AllpassFilter_process_spec :: "AllpassFilter \<Rightarrow> real \<Rightarrow> real \<times> AllpassFilter" where
  "AllpassFilter_process_spec a input =
     (let delayed = readInterpolated_spec (ap_buffer a) (ap_writeIndex a) (ap_currentDelay a)
      in (- ap_feedback a * input + delayed,
          a\<lparr>ap_buffer := (ap_buffer a)[nat (ap_writeIndex a) := input + ap_feedback a * delayed],
            ap_writeIndex := (ap_writeIndex a + 1) mod int (length (ap_buffer a))\<rparr>))"

text \<open>The comb unit of the specification: the delayed sample is read at \<open>currentDelay\<close>,
  the one-pole state is updated from it, \<open>input + filterState * feedback\<close> is written at
  the write index, the write index advances modulo the buffer length, and the delayed
  sample is returned.\<close>

definition CombFilter_process_spec :: "CombFilter \<Rightarrow> real \<Rightarrow> real \<times> CombFilter" where
  "CombFilter_process_spec c input =
     (let delayed = readInterpolated_spec (cf_buffer c) (cf_writeIndex c) (cf_currentDelay c);
          filterState' = delayed * (1 - cf_damping c) + cf_filterState c * cf_damping c
      in (delayed,
          c\<lparr>cf_filterState := filterState',
            cf_buffer := (cf_buffer c)[nat (cf_writeIndex c) := input + filterState' * cf_feedback c],
            cf_writeIndex := (cf_writeIndex c + 1) mod int (length (cf_buffer c))\<rparr>))"

subsection \<open>Invariants and instances\<close>

text \<open>The bound on the stored comb feedback that keeps every comb loop stable.\<close>

definition comb_feedback_bounded :: "AlgorithmicReverb \<Rightarrow> bool" where
  "comb_feedback_bounded s \<longleftrightarrow>
     list_all (list_all (\<lambda>c. 0 \<le> cf_feedback c \<and> cf_feedback c < 1)) (ar_combFilters s)"

text \<open>A coefficient design that returns the pass-through section for every request, and
  the reverb as \<^verbatim>\<open>prepareToPlay (44100, 512)\<close> leaves a newly constructed instance, with
  all random draws 0.\<close>

definition IIRDesign_example :: IIRDesign where
  "IIRDesign_example =
     \<lparr>makeLowPass = (\<lambda>sr f q. pd_state ProcessorDuplicator_new),
      makeHighPass = (\<lambda>sr f q. pd_state ProcessorDuplicator_new),
      makeBandPass = (\<lambda>sr f q. pd_state ProcessorDuplicator_new),
      makeLowShelf = (\<lambda>sr f q g. pd_state ProcessorDuplicator_new)\<rparr>"

definition AlgorithmicReverb_example :: AlgorithmicReverb where
  "AlgorithmicReverb_example =
     AlgorithmicReverb_prepare IIRDesign_example (\<lambda>i. 0) (\<lambda>i. 0) 44100 512 AlgorithmicReverb_new"

text \<open>Units with a buffer of eight samples, as \<^verbatim>\<open>prepare (44100, 4)\<close> and
  \<^verbatim>\<open>setDelayTime\<close> leave a newly constructed unit: a comb unit with the delay
  \<open>1 + 2 ^ -23\<close>, the binary32 number after 1, and a comb and an allpass unit with the
  delay 1.\<close>

definition CombFilter_short :: CombFilter where
  "CombFilter_short =
     CombFilter_setDelayTime (1 + 1 / 2 ^ 23) (CombFilter_prepare 44100 4 CombFilter_new)"

definition CombFilter_unit :: CombFilter where
  "CombFilter_unit = CombFilter_setDelayTime 1 (CombFilter_prepare 44100 4 CombFilter_new)"

definition AllpassFilter_unit :: AllpassFilter where
  "AllpassFilter_unit = AllpassFilter_setDelayTime 1 (AllpassFilter_prepare 44100 4 AllpassFilter_new)"

text \<open>A reverb that is prepared at 96 kHz, given a pre-delay of 500 ms, prepared again at
  44.1 kHz and reset.\<close>

definition AlgorithmicReverb_stale :: "AlgorithmicReverb option" where
  "AlgorithmicReverb_stale = do {
     s \<leftarrow> setPreDelay 500
            (AlgorithmicReverb_prepare IIRDesign_example (\<lambda>i. 0) (\<lambda>i. 0) 96000 512
               AlgorithmicReverb_new);
     Some (AlgorithmicReverb_reset
             (AlgorithmicReverb_prepare IIRDesign_example (\<lambda>i. 0) (\<lambda>i. 0) 44100 512 s))
   }"

text \<open>Silence: every delay line and every filter state of the reverb holds zeros.\<close>

definition zeros :: "real list \<Rightarrow> bool" where
  "zeros v \<longleftrightarrow> list_all (\<lambda>x. x = 0) v"

definition allpass_silent :: "AllpassFilter \<Rightarrow> bool" where
  "allpass_silent a \<longleftrightarrow> zeros (ap_buffer a)"

definition comb_silent :: "CombFilter \<Rightarrow> bool" where
  "comb_silent c \<longleftrightarrow> zeros (cf_buffer c) \<and> cf_filterState c = 0"

definition duplicator_silent :: "ProcessorDuplicator \<Rightarrow> bool" where
  "duplicator_silent p \<longleftrightarrow> list_all (\<lambda>f. iir_v1 f = 0 \<and> iir_v2 f = 0) (pd_filters p)"

definition diffusion_silent :: "DiffusionNetwork \<Rightarrow> bool" where
  "diffusion_silent d \<longleftrightarrow>
     list_all (list_all allpass_silent) (dn_allpassFilters d) \<and>
     duplicator_silent (dn_lowMidFilter d)"

definition reverb_silent :: "AlgorithmicReverb \<Rightarrow> bool" where
  "reverb_silent s \<longleftrightarrow>
     list_all zeros (ar_preDelayBuffer s) \<and>
     list_all (list_all comb_silent) (ar_combFilters s) \<and>
     diffusion_silent (ar_diffusionNetwork s) \<and>
     duplicator_silent (ar_highCutFilter s) \<and>
     duplicator_silent (ar_lowCutFilter s)"

text \<open>A stereo block of one sample, 1 on the left and 0 on the right.\<close>

definition AudioBuffer_example :: AudioBuffer where
  "AudioBuffer_example = \<lparr>ab_numSamples = 1, ab_data = [[1], [0]]\<rparr>"




section \<open>Properties of the rounding\<close>

lemma f32_exponent_from_eq:
  assumes "2 powi e \<le> x" "x < 2 powi (e + 1)"
  shows "e \<le> e0 \<Longrightarrow> nat (e0 - e) \<le> n \<Longrightarrow> f32_exponent_from n e0 x = e"
proof (induction n arbitrary: e0)
  case 0
  then show ?case by simp
next
  case (Suc n)
  show ?case
  proof (cases "2 powi e0 \<le> x")
    case True
    have "\<not> e + 1 \<le> e0"
    proof
      assume "e + 1 \<le> e0"
      then have "(2::real) powi (e + 1) \<le> 2 powi e0" by (intro power_int_increasing) auto
      then show False using True assms(2) by linarith
    qed
    then have "e0 = e" using Suc.prems by linarith
    then show ?thesis using True by simp
  next
    case False
    then have "e0 \<noteq> e" using assms(1) by auto
    then have "e \<le> e0 - 1" "nat (e0 - 1 - e) \<le> n" using Suc.prems by linarith+
    then have "f32_exponent_from n (e0 - 1) x = e" by (rule Suc.IH)
    then show ?thesis using False by simp
  qed
qed

lemma f32_round_binade:
  assumes "2 powi e \<le> \<bar>x\<bar>" "\<bar>x\<bar> < 2 powi (e + 1)" "- 126 \<le> e" "e \<le> 127"
  shows "f32_round x = real_of_int (rne (x / 2 powi (e - 23))) * 2 powi (e - 23)"
proof -
  have "f32_exponent x = e"
    unfolding f32_exponent_def using assms(3,4)
    by (intro f32_exponent_from_eq[OF assms(1,2)]) auto
  then show ?thesis by (simp add: f32_round_def Let_def)
qed

lemma f64_round_binade:
  assumes "2 powi e \<le> \<bar>x\<bar>" "\<bar>x\<bar> < 2 powi (e + 1)" "- 1022 \<le> e" "e \<le> 1023"
  shows "f64_round x = real_of_int (rne (x / 2 powi (e - 52))) * 2 powi (e - 52)"
proof -
  have "f64_exponent x = e"
    unfolding f64_exponent_def using assms(3,4)
    by (intro f32_exponent_from_eq[OF assms(1,2)]) auto
  then show ?thesis by (simp add: f64_round_def Let_def)
qed

lemma f32_exponent_from_range:
  "e0 - int n \<le> f32_exponent_from n e0 x \<and> f32_exponent_from n e0 x \<le> e0"
proof (induction n arbitrary: e0)
  case 0
  show ?case by simp
next
  case (Suc n)
  show ?case using Suc.IH[of "e0 - 1"] by auto
qed

lemma f32_exponent_from_low:
  "f32_exponent_from n e0 x = e0 - int n \<or> 2 powi (f32_exponent_from n e0 x) \<le> x"
proof (induction n arbitrary: e0)
  case 0
  show ?case by simp
next
  case (Suc n)
  show ?case using Suc.IH[of "e0 - 1"] by auto
qed

lemma f32_exponent_from_high:
  "f32_exponent_from n e0 x = e0 \<or> x < 2 powi (f32_exponent_from n e0 x + 1)"
proof (induction n arbitrary: e0)
  case 0
  show ?case by simp
next
  case (Suc n)
  show ?case
  proof (cases "2 powi e0 \<le> x")
    case True
    then show ?thesis by simp
  next
    case False
    then have x: "x < 2 powi (e0 - 1 + 1)" by simp
    show ?thesis using Suc.IH[of "e0 - 1"] x False by auto
  qed
qed

lemma f32_exponent_facts:
  "- 126 \<le> f32_exponent x" "f32_exponent x \<le> 127"
  "f32_exponent x = - 126 \<or> 2 powi (f32_exponent x) \<le> \<bar>x\<bar>"
  "f32_exponent x = 127 \<or> \<bar>x\<bar> < 2 powi (f32_exponent x + 1)"
  using f32_exponent_from_range[of 127 253 "\<bar>x\<bar>"] f32_exponent_from_low[of 253 127 "\<bar>x\<bar>"]
    f32_exponent_from_high[of 253 127 "\<bar>x\<bar>"]
  by (auto simp: f32_exponent_def)

lemma rne_of_int: "rne (real_of_int k) = k"
  by (simp add: rne_def)

lemma rne_le_int: "x \<le> real_of_int k \<Longrightarrow> rne x \<le> k"
proof -
  assume a: "x \<le> real_of_int k"
  have f: "\<lfloor>x\<rfloor> \<le> k" using a by (simp add: floor_le_iff)
  show ?thesis
  proof (cases "\<lfloor>x\<rfloor> = k")
    case True
    then have "x = real_of_int k" using a by linarith
    then show ?thesis by (simp add: rne_of_int)
  next
    case False
    then have "\<lfloor>x\<rfloor> + 1 \<le> k" using f by simp
    then show ?thesis by (auto simp: rne_def Let_def)
  qed
qed

lemma rne_ge_int: "real_of_int k \<le> x \<Longrightarrow> k \<le> rne x"
proof -
  assume "real_of_int k \<le> x"
  then have "k \<le> \<lfloor>x\<rfloor>" by (simp add: le_floor_iff)
  then show ?thesis by (auto simp: rne_def Let_def)
qed

lemma rne_minus: "rne (- x) = - rne x"
proof (cases "x = real_of_int \<lfloor>x\<rfloor>")
  case True
  then obtain k where "x = real_of_int k" ..
  then have "rne (- x) = rne (real_of_int (- k))" "rne x = k" by (simp_all add: rne_of_int)
  then show ?thesis by (simp only: rne_of_int)
next
  case False
  define n where "n = \<lfloor>x\<rfloor>"
  have lt: "real_of_int n < x" "x < real_of_int n + 1" using False n_def by linarith+
  have fl: "\<lfloor>- x\<rfloor> = - n - 1" using lt by (intro floor_unique) auto
  show ?thesis
    using lt by (auto simp: rne_def Let_def fl n_def[symmetric])
qed

lemma f32_round_minus: "f32_round (- x) = - f32_round x"
  by (simp add: f32_round_def Let_def f32_exponent_def rne_minus)

lemma f32_round_0: "f32_round 0 = 0"
  by (simp add: f32_round_def Let_def rne_def)

text \<open>Rounding does not cross an integer below \<open>2 ^ 24\<close>.\<close>

lemma f32_round_le_int:
  assumes "0 \<le> x" "x \<le> real_of_int N" "N < 2 ^ 24"
  shows "f32_round x \<le> real_of_int N"
proof -
  define e where "e = f32_exponent x"
  define u :: real where "u = 2 powi (e - 23)"
  have u: "0 < u" by (simp add: u_def)
  have N: "real_of_int N < 2 ^ 24" using assms(3) by (metis of_int_less_iff of_int_numeral of_int_power)
  have e: "e \<le> 23"
  proof (rule ccontr)
    assume "\<not> e \<le> 23"
    then have e24: "24 \<le> e" by simp
    then have "e \<noteq> - 126" by simp
    then have "2 powi e \<le> \<bar>x\<bar>" using f32_exponent_facts(3)[of x] by (simp add: e_def)
    moreover have "(2::real) powi 24 \<le> 2 powi e" using e24 by (intro power_int_increasing) auto
    ultimately have "(2::real) powi 24 \<le> x" using assms(1) by simp
    then show False using assms(2) N by simp
  qed
  obtain k :: nat where k: "23 - e = int k" using e by (metis diff_ge_0_iff_ge nonneg_int_cases)
  have "1 / u = 2 powi (23 - e)" by (simp add: u_def power_int_diff)
  then have iu: "1 / u = 2 ^ k" by (simp add: k)
  have "real_of_int N / u = real_of_int N * (1 / u)" by simp
  then have "real_of_int N / u = real_of_int (N * 2 ^ k)" unfolding iu by simp
  moreover have "x / u \<le> real_of_int N / u" using assms(2) u by (simp add: divide_right_mono)
  ultimately have "rne (x / u) \<le> N * 2 ^ k" by (intro rne_le_int) simp
  then have "real_of_int (rne (x / u)) \<le> real_of_int (N * 2 ^ k)" by (simp only: of_int_le_iff)
  then have "real_of_int (rne (x / u)) * u \<le> real_of_int (N * 2 ^ k) * u"
    using u by (intro mult_right_mono) auto
  moreover have "2 ^ k * u = 1" using iu u by (simp add: field_simps)
  then have "real_of_int (N * 2 ^ k) * u = real_of_int N" by (simp add: mult.assoc)
  moreover have "f32_round x = real_of_int (rne (x / u)) * u"
    by (simp add: f32_round_def Let_def e_def u_def)
  ultimately show ?thesis by (simp only:)
qed

lemma f32_round_ge_int:
  assumes "0 \<le> N" "real_of_int N \<le> x" "N < 2 ^ 24"
  shows "real_of_int N \<le> f32_round x"
proof -
  define e where "e = f32_exponent x"
  define u :: real where "u = 2 powi (e - 23)"
  have u: "0 < u" by (simp add: u_def)
  have N: "real_of_int N < 2 ^ 24" using assms(3) by (metis of_int_less_iff of_int_numeral of_int_power)
  have x0: "0 \<le> x" using assms(1,2) by simp
  have r: "f32_round x = real_of_int (rne (x / u)) * u" by (simp add: f32_round_def Let_def e_def u_def)
  show ?thesis
  proof (cases "e \<le> 23")
    case True
    obtain k :: nat where k: "23 - e = int k" using True by (metis diff_ge_0_iff_ge nonneg_int_cases)
    have "1 / u = 2 powi (23 - e)" by (simp add: u_def power_int_diff)
    then have iu: "1 / u = 2 ^ k" by (simp add: k)
    have "real_of_int N / u = real_of_int N * (1 / u)" by simp
  then have "real_of_int N / u = real_of_int (N * 2 ^ k)" unfolding iu by simp
    moreover have "real_of_int N / u \<le> x / u" using assms(2) u by (simp add: divide_right_mono)
    ultimately have "N * 2 ^ k \<le> rne (x / u)" by (intro rne_ge_int) simp
    then have "real_of_int (N * 2 ^ k) \<le> real_of_int (rne (x / u))" by (simp only: of_int_le_iff)
    then have "real_of_int (N * 2 ^ k) * u \<le> real_of_int (rne (x / u)) * u"
      using u by (intro mult_right_mono) auto
    moreover have "2 ^ k * u = 1" using iu u by (simp add: field_simps)
    then have "real_of_int (N * 2 ^ k) * u = real_of_int N" by (simp add: mult.assoc)
    ultimately show ?thesis by (simp only: r)
  next
    case False
    then have e24: "24 \<le> e" by simp
    then have "e \<noteq> - 126" by simp
    then have xe: "2 powi e \<le> x" using f32_exponent_facts(3)[of x] x0 by (simp add: e_def)
    have "2 powi e / u = 2 powi (e - (e - 23))" unfolding u_def by (simp add: power_int_diff)
    then have q: "2 powi e / u = real_of_int (2 ^ 23)" by simp
    have "2 powi e / u \<le> x / u" using xe u by (simp add: divide_right_mono)
    then have "2 ^ 23 \<le> rne (x / u)" unfolding q by (rule rne_ge_int)
    then have "real_of_int (2 ^ 23) \<le> real_of_int (rne (x / u))" by (simp only: of_int_le_iff)
    then have "real_of_int (2 ^ 23) * u \<le> real_of_int (rne (x / u)) * u"
      using u by (intro mult_right_mono) auto
    moreover have "real_of_int (2 ^ 23) * u = 2 powi e" using q u by (simp add: field_simps)
    moreover have "(2::real) powi 24 \<le> 2 powi e" using e24 by (intro power_int_increasing) auto
    ultimately show ?thesis using N by (simp add: r)
  qed
qed

lemma f32_round_int:
  assumes "\<bar>n\<bar> < 2 ^ 24"
  shows "f32_round (real_of_int n) = real_of_int n"
proof (cases "0 \<le> n")
  case True
  then have "f32_round (real_of_int n) \<le> real_of_int n" "real_of_int n \<le> f32_round (real_of_int n)"
    using assms by (auto intro: f32_round_le_int f32_round_ge_int)
  then show ?thesis by simp
next
  case False
  define m where "m = - n"
  have m: "0 \<le> m" "m < 2 ^ 24" using False assms by (simp_all add: m_def)
  have "f32_round (real_of_int m) \<le> real_of_int m"
    using m by (intro f32_round_le_int) auto
  moreover have "real_of_int m \<le> f32_round (real_of_int m)"
    using m by (intro f32_round_ge_int) auto
  ultimately have "f32_round (- real_of_int n) = - real_of_int n" by (simp add: m_def)
  then show ?thesis by (simp add: f32_round_minus)
qed

lemma f32_round_exact_binade:
  fixes m :: int
  assumes "x = real_of_int m * 2 powi (e - 23)" "2 powi e \<le> \<bar>x\<bar>" "\<bar>x\<bar> < 2 powi (e + 1)"
    "- 126 \<le> e" "e \<le> 127"
  shows "f32_round x = x"
proof -
  have "x / 2 powi (e - 23) = real_of_int m" using assms(1) by simp
  then show ?thesis
    using f32_round_binade[OF assms(2-5)] assms(1) by (simp add: rne_of_int)
qed

lemma f64_round_exact_binade:
  fixes m :: int
  assumes "x = real_of_int m * 2 powi (e - 52)" "2 powi e \<le> \<bar>x\<bar>" "\<bar>x\<bar> < 2 powi (e + 1)"
    "- 1022 \<le> e" "e \<le> 1023"
  shows "f64_round x = x"
proof -
  have "x / 2 powi (e - 52) = real_of_int m" using assms(1) by simp
  then show ?thesis
    using f64_round_binade[OF assms(2-5)] assms(1) by (simp add: rne_of_int)
qed

lemma f32_small_ints:
  "f32_round 1 = 1" "f32_round 4 = 4" "f32_round 7 = 7" "f32_round 8 = 8" "f32_round (- 1) = - 1"
  using f32_round_int[of 1] f32_round_int[of 4] f32_round_int[of 7] f32_round_int[of 8]
    f32_round_int[of "- 1"] by simp_all


text \<open>The binary32 numbers next to 1 and to 0, and the two sums that round up to an
  integer.\<close>

lemma f32_next_after_one:
  "f32_round (8388609 / 8388608) = 8388609 / 8388608"
  "f32_round (- (8388609 / 8388608)) = - (8388609 / 8388608)"
proof -
  show a: "f32_round (8388609 / 8388608) = 8388609 / 8388608"
    by (rule f32_round_exact_binade[where e = 0 and m = 8388609]) (simp_all add: power_int_minus)
  show "f32_round (- (8388609 / 8388608)) = - (8388609 / 8388608)"
    by (simp only: f32_round_minus a)
qed

lemma f32_ulp_below_zero: "f32_round (- (1 / 8388608)) = - (1 / 8388608)"
proof -
  have "f32_round (1 / 8388608) = 1 / 8388608"
    by (rule f32_round_exact_binade[where e = "- 23" and m = 8388608]) (simp_all add: power_int_minus)
  then show ?thesis by (simp only: f32_round_minus)
qed

lemma f32_round_up_to_7: "f32_round (58720255 / 8388608) = 7"
proof -
  have "f32_round (58720255 / 8388608) =
        real_of_int (rne (58720255 / 8388608 / 2 powi (2 - 23))) * 2 powi (2 - 23)"
    by (rule f32_round_binade) (simp_all add: power_int_minus)
  also have "\<dots> = 7" by (simp add: rne_def power_int_minus)
  finally show ?thesis .
qed

lemma f32_round_up_to_8: "f32_round (67108863 / 8388608) = 8"
proof -
  have "f32_round (67108863 / 8388608) =
        real_of_int (rne (67108863 / 8388608 / 2 powi (2 - 23))) * 2 powi (2 - 23)"
    by (rule f32_round_binade) (simp_all add: power_int_minus)
  also have "\<dots> = 8" by (simp add: rne_def power_int_minus)
  finally show ?thesis .
qed

lemmas f32_values = f32_small_ints f32_round_0 f32_next_after_one f32_ulp_below_zero
  f32_round_up_to_7 f32_round_up_to_8

lemma f64_values:
  "f64_round 22050 = 22050" "f64_round 48000 = 48000" "f64_round 48000000 = 48000000"
proof -
  show "f64_round 22050 = 22050"
    by (rule f64_round_exact_binade[where e = 14 and m = "22050 * 2 ^ 38"])
      (simp_all add: power_int_minus)
  show "f64_round 48000 = 48000"
    by (rule f64_round_exact_binade[where e = 15 and m = "48000 * 2 ^ 37"])
      (simp_all add: power_int_minus)
  show "f64_round 48000000 = 48000000"
    by (rule f64_round_exact_binade[where e = 25 and m = "48000000 * 2 ^ 27"])
      (simp_all add: power_int_minus)
qed

section \<open>Delay times and conversions\<close>

text \<open>The delay times are binary32 numbers: \<open>1.3f\<close> is below 1.3, and at 10 kHz the first
  stage of channel 0 gets 12 samples of delay, not 13, and a maximal delay of 112.\<close>

lemma stage_delay_10kHz:
  "ap_maxDelay (dn_allpassFilters (DiffusionNetwork_prepare J 10000 d) ! 0 ! 0) = 112 \<and>
   ap_currentDelay (dn_allpassFilters (DiffusionNetwork_prepare J 10000 d) ! 0 ! 0) = 12"
proof -
  have "f32_round (13 / 10) = real_of_int (rne (13 / 10 / 2 powi (0 - 23))) * 2 powi (0 - 23)"
    by (rule f32_round_binade) simp_all
  also have "\<dots> = 5452595 / 4194304" by (simp add: rne_def power_int_minus)
  finally have a: "f32_round (13 / 10) = 5452595 / 4194304" .
  have b: "f32_round (5452595 / 4194304) = 5452595 / 4194304"
    by (rule f32_round_exact_binade[where e = 0 and m = 10905190]) (simp_all add: power_int_minus)
  have c: "f64_round (3407871875 / 262144) = 3407871875 / 262144"
    by (rule f64_round_exact_binade[where e = 13 and m = "3407871875 * 2 ^ 21"])
      (simp_all add: power_int_minus)
  have d: "f64_round (27262975 / 2097152) = 27262975 / 2097152"
    by (rule f64_round_exact_binade[where e = 3 and m = "27262975 * 2 ^ 28"])
      (simp_all add: power_int_minus)
  have e: "f32_round 12 = 12" "f32_round 112 = 112"
    using f32_round_int[of 12] f32_round_int[of 112] by simp_all
  show ?thesis
    by (simp add: DiffusionNetwork_prepare_def updateThrustFilter_def Let_def NumStages_def
        NumChannels_def stageDelayTimesMs_def upt_rec a b c d e to_int_def
        AllpassFilter_setFeedback_def AllpassFilter_setDelayTime_def AllpassFilter_prepare_def
        jlimit_def)
qed

text \<open>A pre-delay of \<open>10 ^ 8\<close> ms at 44.1 kHz is \<open>4.41 * 10 ^ 9\<close> samples, more than an
  \<^verbatim>\<open>int\<close> holds: the conversion in \<^verbatim>\<open>setPreDelay\<close> is undefined.\<close>

lemma setPreDelay_overflow: "setPreDelay 100000000 AlgorithmicReverb_new = None"
proof -
  have a: "f64_round 4410000000000 = 4410000000000"
    by (rule f64_round_exact_binade[where e = 42 and m = "4410000000000 * 2 ^ 10"])
      (simp_all add: power_int_minus)
  have b: "f64_round 4410000000 = 4410000000"
    by (rule f64_round_exact_binade[where e = 32 and m = "4410000000 * 2 ^ 20"])
      (simp_all add: power_int_minus)
  show ?thesis
    by (simp add: setPreDelay_def AlgorithmicReverb_new_def a b to_int_checked_def to_int_def)
qed

section \<open>Properties of the units\<close>

lemma jlimit_bounds:
  fixes lo hi x :: "'a::linorder"
  assumes "lo \<le> hi"
  shows "lo \<le> jlimit lo hi x" and "jlimit lo hi x \<le> hi"
  using assms by (auto simp: jlimit_def)

lemma jlimit_id:
  fixes lo hi x :: "'a::linorder"
  shows "lo \<le> x \<Longrightarrow> x \<le> hi \<Longrightarrow> jlimit lo hi x = x"
  by (auto simp: jlimit_def)

lemma read_position_range:
  fixes d :: real and wi m :: int and n :: nat
  assumes "1 \<le> d" "d \<le> real_of_int m" "int n = m + 4" "0 \<le> wi" "wi < int n"
  defines "p \<equiv> (if real_of_int wi - d < 0 then real_of_int wi - d + real_of_int (int n)
                  else real_of_int wi - d)"
  shows "0 \<le> p" and "p < real n"
proof -
  have n: "real n = real_of_int m + 4" using assms(3) by (metis of_int_add of_int_numeral of_int_of_nat_eq)
  have wi: "0 \<le> real_of_int wi" "real_of_int wi < real n"
    using assms(4,5) by (simp, metis of_int_less_iff of_int_of_nat_eq)
  show "0 \<le> p" using assms(1,2) n wi by (auto simp: p_def)
  show "p < real n" using assms(1,2) n wi by (auto simp: p_def)
qed

lemma to_int_nonneg: "0 \<le> x \<Longrightarrow> to_int x = \<lfloor>x\<rfloor>"
  by (simp add: to_int_def)

lemma floor_in_range:
  fixes p :: real and n :: nat
  assumes "0 \<le> p" "p < real n"
  shows "0 \<le> \<lfloor>p\<rfloor>" and "\<lfloor>p\<rfloor> < int n"
  using assms by (simp, simp add: floor_less_iff)

lemma c_rem_nonneg: "0 \<le> a \<Longrightarrow> 0 < b \<Longrightarrow> c_rem a b = Some (a mod b)"
  by (cases "a = 0") (auto simp: c_rem_def)

lemma wrap_position_cond:
  fixes p :: real and n :: nat
  assumes "- real n \<le> p" "p < real n" "0 < n"
  shows "wrap_position p n = (if p < 0 then p + real n else p)"
proof (cases "p < 0")
  case True
  have "\<lfloor>p / real n\<rfloor> = - 1"
    using assms True by (intro floor_unique) (auto simp: field_simps)
  then show ?thesis using True by (simp add: wrap_position_def)
next
  case False
  have "\<lfloor>p / real n\<rfloor> = 0"
    using assms False by (intro floor_unique) (auto simp: field_simps)
  then show ?thesis using False by (simp add: wrap_position_def)
qed

subsection \<open>The read position\<close>

text \<open>Rounding to binary32 does not cross an integer below \<open>2 ^ 24\<close>, on either side of
  zero.\<close>

lemma f32_round_upper:
  assumes "x \<le> real_of_int N" "0 \<le> N" "N < 2 ^ 24"
  shows "f32_round x \<le> real_of_int N"
proof (cases "0 \<le> x")
  case True
  then show ?thesis using assms by (intro f32_round_le_int) auto
next
  case False
  then have "real_of_int 0 \<le> - x" by simp
  then have "real_of_int 0 \<le> f32_round (- x)" by (intro f32_round_ge_int) auto
  then have "f32_round x \<le> 0" by (simp add: f32_round_minus)
  then show ?thesis using assms(2) by simp
qed

lemma f32_round_lower:
  assumes "- real_of_int N \<le> x" "0 \<le> N" "N < 2 ^ 24"
  shows "- real_of_int N \<le> f32_round x"
proof -
  have "- x \<le> real_of_int N" using assms(1) by simp
  then have "f32_round (- x) \<le> real_of_int N" using assms(2,3) by (rule f32_round_upper)
  then show ?thesis by (simp add: f32_round_minus)
qed

lemma f32_round_nonneg: "0 \<le> x \<Longrightarrow> 0 \<le> f32_round x"
  using f32_round_ge_int[of 0 x] by simp

text \<open>The positions a prepared unit computes: the first difference lies between
  \<open>- maxDelay\<close> and \<open>size - 2\<close>, the wrapped position between 0 and \<open>size\<close>.\<close>

lemma read_position_bounds:
  fixes w m :: int and d :: real and n :: nat
  assumes "1 \<le> m" "m + 4 < 2 ^ 24" "int n = m + 4" "0 \<le> w" "w < int n" "1 \<le> d" "d \<le> real_of_int m"
  defines "q \<equiv> f32_round (f32_round (real_of_int w) - d)"
  shows "- real_of_int m \<le> q" "q \<le> real_of_int (int n - 2)"
    "0 \<le> read_position w d n" "read_position w d n \<le> real n"
    "\<not> q < 0 \<Longrightarrow> read_position w d n < real n"
proof -
  have fw: "f32_round (real_of_int w) = real_of_int w"
    using assms(2-5) by (intro f32_round_int) auto
  have "\<bar>int n\<bar> < 2 ^ 24" using assms(1-3) by linarith
  then have "f32_round (real_of_int (int n)) = real_of_int (int n)" by (rule f32_round_int)
  then have fn: "f32_round (real n) = real n" by simp
  have rn: "real n = real_of_int m + 4" using assms(3) by (metis of_int_add of_int_numeral of_int_of_nat_eq)
  have "w \<le> int n - 1" using assms(5) by simp
  then have "real_of_int w \<le> real_of_int (int n - 1)" by (simp only: of_int_le_iff)
  then have rw: "0 \<le> real_of_int w" "real_of_int w \<le> real n - 1"
    using assms(4) by simp_all
  have "- real_of_int m \<le> real_of_int w - d" using rw(1) assms(7) by simp
  then show lo: "- real_of_int m \<le> q"
    unfolding q_def fw using assms(1,2) by (intro f32_round_lower) auto
  have "real_of_int w - d \<le> real_of_int (int n - 2)" using rw(2) assms(6) by simp
  then show hi: "q \<le> real_of_int (int n - 2)"
    unfolding q_def fw using assms(1-3) by (intro f32_round_upper) auto
  have rp: "read_position w d n = (if q < 0 then f32_round (q + real n) else q)"
    by (simp add: read_position_def Let_def q_def fn)
  show "0 \<le> read_position w d n"
  proof (cases "q < 0")
    case True
    have "0 \<le> q + real n" using lo rn by simp
    then show ?thesis using True by (simp add: rp f32_round_nonneg)
  next
    case False
    then show ?thesis by (simp add: rp)
  qed
  show "read_position w d n \<le> real n"
  proof (cases "q < 0")
    case True
    have "q + real n \<le> real_of_int (int n)" using True by simp
    then have "f32_round (q + real n) \<le> real_of_int (int n)"
      using assms(1-3) by (intro f32_round_upper) auto
    then show ?thesis using True by (simp add: rp)
  next
    case False
    then show ?thesis using hi by (simp add: rp)
  qed
  show "read_position w d n < real n" if "\<not> q < 0"
    using that hi by (simp add: rp)
qed

subsection \<open>The comb unit\<close>

text \<open>\<^verbatim>\<open>process\<close> with the wrapped read position named.\<close>

lemma CombFilter_process_alt:
  "CombFilter_process c input =
     (let size = int (length (cf_buffer c));
          readPos = read_position (cf_writeIndex c) (cf_currentDelay c) (length (cf_buffer c));
          readIndex0 = to_int readPos
      in do {
        readIndex1 \<leftarrow> c_rem (readIndex0 + 1) size;
        let frac = f32_round (readPos - f32_round (real_of_int readIndex0));
        s0 \<leftarrow> rd (cf_buffer c) readIndex0;
        s1 \<leftarrow> rd (cf_buffer c) readIndex1;
        let delayed = s0 * (1 - frac) + s1 * frac;
        let filterState' = delayed * (1 - cf_damping c) + cf_filterState c * cf_damping c;
        buffer' \<leftarrow> wr (cf_buffer c) (cf_writeIndex c) (input + filterState' * cf_feedback c);
        writeIndex' \<leftarrow> c_rem (cf_writeIndex c + 1) size;
        Some (delayed, c\<lparr>cf_filterState := filterState', cf_buffer := buffer',
                          cf_writeIndex := writeIndex'\<rparr>)
      })"
  by (simp add: CombFilter_process_def read_position_def Let_def)

text \<open>A prepared comb unit reads outside its buffer exactly when the wrapped read
  position is the size of the buffer.\<close>

lemma CombFilter_process_defined:
  assumes "comb_ok c"
  shows "CombFilter_process c input = None \<longleftrightarrow>
         read_position (cf_writeIndex c) (cf_currentDelay c) (length (cf_buffer c)) =
           real (length (cf_buffer c))"
proof -
  define n where "n = length (cf_buffer c)"
  define p where "p = read_position (cf_writeIndex c) (cf_currentDelay c) n"
  have ok: "1 \<le> cf_maxDelay c" "cf_maxDelay c + 4 < 2 ^ 24" "int n = cf_maxDelay c + 4"
    "0 \<le> cf_writeIndex c" "cf_writeIndex c < int n"
    "1 \<le> cf_currentDelay c" "cf_currentDelay c \<le> real_of_int (cf_maxDelay c)"
    using assms by (auto simp: comb_ok_def n_def)
  have p: "0 \<le> p" "p \<le> real n"
    unfolding p_def using read_position_bounds(3,4)[OF ok] by blast+
  have npos: "0 < n" using ok(1,3) by linarith
  have fl: "0 \<le> \<lfloor>p\<rfloor>" using p(1) by simp
  have r1: "c_rem (\<lfloor>p\<rfloor> + 1) (int n) = Some ((\<lfloor>p\<rfloor> + 1) mod int n)"
    using fl npos by (intro c_rem_nonneg) auto
  have r1': "0 \<le> (\<lfloor>p\<rfloor> + 1) mod int n" "(\<lfloor>p\<rfloor> + 1) mod int n < int n"
    using npos by auto
  have r2: "c_rem (cf_writeIndex c + 1) (int n) = Some ((cf_writeIndex c + 1) mod int n)"
    using ok(4) npos by (intro c_rem_nonneg) auto
  have lt: "\<lfloor>p\<rfloor> < int n \<longleftrightarrow> p < real n" by (simp add: floor_less_iff)
  show ?thesis
  proof (cases "p < real n")
    case True
    then have "CombFilter_process c input \<noteq> None"
      using fl r1 r1' r2 lt ok(4,5) p
      by (simp add: CombFilter_process_alt Let_def n_def[symmetric] p_def[symmetric] to_int_nonneg
          rd_def wr_def)
    then show ?thesis using True by (simp add: n_def[symmetric] p_def[symmetric])
  next
    case False
    then have "CombFilter_process c input = None"
      using fl r1 r1' r2 lt ok(4,5) p
      by (simp add: CombFilter_process_alt Let_def n_def[symmetric] p_def[symmetric] to_int_nonneg
          rd_def wr_def)
    then show ?thesis using False p(2) by (simp add: n_def[symmetric] p_def[symmetric])
  qed
qed

text \<open>Wherever \<^verbatim>\<open>process\<close> of a prepared comb unit returns, it returns the sample
  interpolated at the wrapped read position, the one-pole state is
  \<open>delayed * (1 - damping) + filterState * damping\<close>, \<open>input + filterState * feedback\<close> is
  written at the write index, and the write index has advanced modulo the buffer size.\<close>

lemma CombFilter_process_result:
  assumes "comb_ok c" "CombFilter_process c input = Some (y, c')"
  defines "n \<equiv> length (cf_buffer c)"
  defines "p \<equiv> read_position (cf_writeIndex c) (cf_currentDelay c) n"
  defines "t \<equiv> f32_round (p - f32_round (real_of_int \<lfloor>p\<rfloor>))"
  shows "p < real n"
    and "y = cf_buffer c ! nat \<lfloor>p\<rfloor> * (1 - t) + cf_buffer c ! nat ((\<lfloor>p\<rfloor> + 1) mod int n) * t"
    and "c' = c\<lparr>cf_filterState := y * (1 - cf_damping c) + cf_filterState c * cf_damping c,
               cf_buffer := (cf_buffer c)[nat (cf_writeIndex c) :=
                 input + (y * (1 - cf_damping c) + cf_filterState c * cf_damping c) * cf_feedback c],
               cf_writeIndex := (cf_writeIndex c + 1) mod int n\<rparr>"
proof -
  have ok: "1 \<le> cf_maxDelay c" "cf_maxDelay c + 4 < 2 ^ 24" "int n = cf_maxDelay c + 4"
    "0 \<le> cf_writeIndex c" "cf_writeIndex c < int n"
    "1 \<le> cf_currentDelay c" "cf_currentDelay c \<le> real_of_int (cf_maxDelay c)"
    using assms(1) by (auto simp: comb_ok_def n_def)
  have p: "0 \<le> p" "p \<le> real n"
    unfolding p_def using read_position_bounds(3,4)[OF ok] by blast+
  have "CombFilter_process c input \<noteq> None" using assms(2) by simp
  then have "p \<noteq> real n"
    unfolding CombFilter_process_defined[OF assms(1)] by (simp add: p_def n_def)
  then show pn: "p < real n" using p(2) by simp
  have npos: "0 < n" using ok(1,3) by linarith
  have fl: "0 \<le> \<lfloor>p\<rfloor>" "\<lfloor>p\<rfloor> < int n" using p(1) pn by (simp_all add: floor_less_iff)
  have r1: "c_rem (\<lfloor>p\<rfloor> + 1) (int n) = Some ((\<lfloor>p\<rfloor> + 1) mod int n)"
    using fl npos by (intro c_rem_nonneg) auto
  have r1': "0 \<le> (\<lfloor>p\<rfloor> + 1) mod int n" "(\<lfloor>p\<rfloor> + 1) mod int n < int n"
    using npos by auto
  have r2: "c_rem (cf_writeIndex c + 1) (int n) = Some ((cf_writeIndex c + 1) mod int n)"
    using ok(4) npos by (intro c_rem_nonneg) auto
  have e: "CombFilter_process c input =
     Some (cf_buffer c ! nat \<lfloor>p\<rfloor> * (1 - t) + cf_buffer c ! nat ((\<lfloor>p\<rfloor> + 1) mod int n) * t,
       c\<lparr>cf_filterState := (cf_buffer c ! nat \<lfloor>p\<rfloor> * (1 - t)
                  + cf_buffer c ! nat ((\<lfloor>p\<rfloor> + 1) mod int n) * t) * (1 - cf_damping c)
                  + cf_filterState c * cf_damping c,
               cf_buffer := (cf_buffer c)[nat (cf_writeIndex c) :=
                 input + ((cf_buffer c ! nat \<lfloor>p\<rfloor> * (1 - t)
                  + cf_buffer c ! nat ((\<lfloor>p\<rfloor> + 1) mod int n) * t) * (1 - cf_damping c)
                  + cf_filterState c * cf_damping c) * cf_feedback c],
               cf_writeIndex := (cf_writeIndex c + 1) mod int n\<rparr>)"
    using fl r1 r1' r2 ok(4,5) p
    by (simp add: CombFilter_process_alt Let_def n_def[symmetric] p_def[symmetric] to_int_nonneg
        rd_def wr_def t_def)
  show "y = cf_buffer c ! nat \<lfloor>p\<rfloor> * (1 - t) + cf_buffer c ! nat ((\<lfloor>p\<rfloor> + 1) mod int n) * t"
    using assms(2) unfolding e by simp
  then show "c' = c\<lparr>cf_filterState := y * (1 - cf_damping c) + cf_filterState c * cf_damping c,
               cf_buffer := (cf_buffer c)[nat (cf_writeIndex c) :=
                 input + (y * (1 - cf_damping c) + cf_filterState c * cf_damping c) * cf_feedback c],
               cf_writeIndex := (cf_writeIndex c + 1) mod int n\<rparr>"
    using assms(2) unfolding e by simp
qed

text \<open>With a whole number of samples as the delay, which is what \<^verbatim>\<open>prepare\<close> sets, no
  operation on the read position rounds: the read is inside the buffer, and the unit is
  the unit of the specification.\<close>

lemma read_position_integer:
  fixes w m k :: int and n :: nat
  assumes "1 \<le> m" "m + 4 < 2 ^ 24" "int n = m + 4" "0 \<le> w" "w < int n" "1 \<le> k" "k \<le> m"
  shows "read_position w (real_of_int k) n =
         (if real_of_int w - real_of_int k < 0 then real_of_int w - real_of_int k + real_of_int (int n)
          else real_of_int w - real_of_int k)"
proof -
  have fw: "f32_round (real_of_int w) = real_of_int w"
    using assms(2-5) by (intro f32_round_int) auto
  have "\<bar>int n\<bar> < 2 ^ 24" using assms(1-3) by linarith
  then have "f32_round (real_of_int (int n)) = real_of_int (int n)" by (rule f32_round_int)
  then have fn: "f32_round (real n) = real n" by simp
  have "f32_round (real_of_int (w - k)) = real_of_int (w - k)"
    using assms by (intro f32_round_int) auto
  then have q: "f32_round (real_of_int w - real_of_int k) = real_of_int w - real_of_int k" by simp
  have "f32_round (real_of_int (w - k + int n)) = real_of_int (w - k + int n)"
    if "w - k < 0" using assms that by (intro f32_round_int) auto
  then have s: "f32_round (real_of_int w - real_of_int k + real n) = real_of_int w - real_of_int k + real n"
    if "real_of_int w - real_of_int k < 0"
    using that by simp
  show ?thesis
    unfolding read_position_def Let_def fw fn q using s by simp
qed

lemma CombFilter_process_refines:
  assumes "comb_ok c" "cf_currentDelay c = real_of_int k"
  shows "CombFilter_process c input = Some (CombFilter_process_spec c input)"
proof -
  define n where "n = length (cf_buffer c)"
  define q where "q = real_of_int (cf_writeIndex c) - cf_currentDelay c"
  define p where "p = (if q < 0 then q + real_of_int (int n) else q)"
  have ok: "1 \<le> cf_currentDelay c" "cf_currentDelay c \<le> real_of_int (cf_maxDelay c)"
    "int n = cf_maxDelay c + 4" "0 \<le> cf_writeIndex c" "cf_writeIndex c < int n" "1 \<le> cf_maxDelay c"
    "cf_maxDelay c + 4 < 2 ^ 24"
    using assms(1) by (auto simp: comb_ok_def n_def)
  have k: "1 \<le> k" "k \<le> cf_maxDelay c" using ok(1,2) unfolding assms(2) by linarith+
  have rp: "read_position (cf_writeIndex c) (cf_currentDelay c) n = p"
    unfolding assms(2) p_def q_def
    by (rule read_position_integer[OF ok(6,7,3,4,5) k])
  obtain j :: int where j: "p = real_of_int j"
  proof (cases "q < 0")
    case True
    then have "p = real_of_int (cf_writeIndex c - k + int n)" by (simp add: p_def q_def assms(2))
    then show ?thesis by (rule that)
  next
    case False
    then have "p = real_of_int (cf_writeIndex c - k)" by (simp add: p_def q_def assms(2))
    then show ?thesis by (rule that)
  qed
  have p: "0 \<le> p" "p < real n"
    unfolding p_def q_def using read_position_range[OF ok(1-5)] by blast+
  have jn: "\<bar>j\<bar> < 2 ^ 24" using p ok(3,7) unfolding j by linarith
  have fr: "f32_round (p - f32_round (real_of_int \<lfloor>p\<rfloor>)) = p - real_of_int \<lfloor>p\<rfloor>"
    unfolding j using f32_round_int[OF jn] by (simp add: f32_round_0)
  have npos: "0 < n" using ok(3,6) by linarith
  have fl: "0 \<le> \<lfloor>p\<rfloor>" "\<lfloor>p\<rfloor> < int n" using floor_in_range[OF p] .
  have qlo: "- real n \<le> q"
  proof -
    have "real n = real_of_int (cf_maxDelay c) + 4" using ok(3) by (metis of_int_add of_int_numeral of_int_of_nat_eq)
    moreover have "0 \<le> real_of_int (cf_writeIndex c)" using ok(4) by simp
    ultimately show ?thesis using ok(2) by (simp add: q_def)
  qed
  have qhi: "q < real n"
  proof -
    have "real_of_int (cf_writeIndex c) < real n" using ok(5) by (metis of_int_less_iff of_int_of_nat_eq)
    then show ?thesis using ok(1) by (simp add: q_def)
  qed
  have w: "wrap_position q n = p"
    using wrap_position_cond[OF qlo qhi npos] by (simp add: p_def)
  have r1: "c_rem (\<lfloor>p\<rfloor> + 1) (int n) = Some ((\<lfloor>p\<rfloor> + 1) mod int n)"
    using fl npos by (intro c_rem_nonneg) auto
  have r1': "0 \<le> (\<lfloor>p\<rfloor> + 1) mod int n" "(\<lfloor>p\<rfloor> + 1) mod int n < int n"
    using npos by auto
  have r2: "c_rem (cf_writeIndex c + 1) (int n) = Some ((cf_writeIndex c + 1) mod int n)"
    using ok(4) npos by (intro c_rem_nonneg) auto
  have i1: "nat ((\<lfloor>p\<rfloor> + 1) mod int n) = (nat \<lfloor>p\<rfloor> + 1) mod n"
    using fl npos by (simp add: nat_mod_distrib nat_add_distrib)
  have i0: "real (nat \<lfloor>p\<rfloor>) = real_of_int \<lfloor>p\<rfloor>" using fl by simp
  show ?thesis
    unfolding CombFilter_process_alt CombFilter_process_spec_def readInterpolated_spec_def
    using p fl r1 r1' r2 w i1 i0 ok(4,5) fr
    by (simp add: Let_def n_def[symmetric] q_def[symmetric] rp to_int_nonneg rd_def wr_def)
qed

text \<open>\<^verbatim>\<open>processModulated\<close> is \<^verbatim>\<open>process\<close> run at the clamped delay, with the stored delay put
  back afterwards; the two fail together.\<close>

lemma CombFilter_processModulated_eq:
  "CombFilter_processModulated c input off =
     map_option (\<lambda>(y, c'). (y, c'\<lparr>cf_currentDelay := cf_currentDelay c\<rparr>))
       (CombFilter_process
          (c\<lparr>cf_currentDelay := jlimit 1 (f32_round (real_of_int (cf_maxDelay c)))
                                  (f32_round (cf_currentDelay c + off))\<rparr>)
          input)"
  unfolding CombFilter_processModulated_def CombFilter_process_def
  by (simp add: Let_def split: Option.bind_split)

subsection \<open>The allpass unit\<close>

lemma AllpassFilter_process_alt:
  "AllpassFilter_process a input =
     (let size = int (length (ap_buffer a));
          readPos = read_position (ap_writeIndex a) (ap_currentDelay a) (length (ap_buffer a));
          readIndex0 = to_int readPos
      in do {
        readIndex1 \<leftarrow> c_rem (readIndex0 + 1) size;
        let frac = f32_round (readPos - f32_round (real_of_int readIndex0));
        s0 \<leftarrow> rd (ap_buffer a) readIndex0;
        s1 \<leftarrow> rd (ap_buffer a) readIndex1;
        let delayed = s0 * (1 - frac) + s1 * frac;
        let output = - ap_feedback a * input + delayed;
        buffer' \<leftarrow> wr (ap_buffer a) (ap_writeIndex a) (input + ap_feedback a * delayed);
        writeIndex' \<leftarrow> c_rem (ap_writeIndex a + 1) size;
        Some (output, a\<lparr>ap_buffer := buffer', ap_writeIndex := writeIndex'\<rparr>)
      })"
  by (simp add: AllpassFilter_process_def read_position_def Let_def)

lemma AllpassFilter_process_defined:
  assumes "allpass_ok a"
  shows "AllpassFilter_process a input = None \<longleftrightarrow>
         read_position (ap_writeIndex a) (ap_currentDelay a) (length (ap_buffer a)) =
           real (length (ap_buffer a))"
proof -
  define n where "n = length (ap_buffer a)"
  define p where "p = read_position (ap_writeIndex a) (ap_currentDelay a) n"
  have ok: "1 \<le> ap_maxDelay a" "ap_maxDelay a + 4 < 2 ^ 24" "int n = ap_maxDelay a + 4"
    "0 \<le> ap_writeIndex a" "ap_writeIndex a < int n"
    "1 \<le> ap_currentDelay a" "ap_currentDelay a \<le> real_of_int (ap_maxDelay a)"
    using assms by (auto simp: allpass_ok_def n_def)
  have p: "0 \<le> p" "p \<le> real n"
    unfolding p_def using read_position_bounds(3,4)[OF ok] by blast+
  have npos: "0 < n" using ok(1,3) by linarith
  have fl: "0 \<le> \<lfloor>p\<rfloor>" using p(1) by simp
  have r1: "c_rem (\<lfloor>p\<rfloor> + 1) (int n) = Some ((\<lfloor>p\<rfloor> + 1) mod int n)"
    using fl npos by (intro c_rem_nonneg) auto
  have r1': "0 \<le> (\<lfloor>p\<rfloor> + 1) mod int n" "(\<lfloor>p\<rfloor> + 1) mod int n < int n"
    using npos by auto
  have r2: "c_rem (ap_writeIndex a + 1) (int n) = Some ((ap_writeIndex a + 1) mod int n)"
    using ok(4) npos by (intro c_rem_nonneg) auto
  have lt: "\<lfloor>p\<rfloor> < int n \<longleftrightarrow> p < real n" by (simp add: floor_less_iff)
  show ?thesis
  proof (cases "p < real n")
    case True
    then have "AllpassFilter_process a input \<noteq> None"
      using fl r1 r1' r2 lt ok(4,5) p
      by (simp add: AllpassFilter_process_alt Let_def n_def[symmetric] p_def[symmetric] to_int_nonneg
          rd_def wr_def)
    then show ?thesis using True by (simp add: n_def[symmetric] p_def[symmetric])
  next
    case False
    then have "AllpassFilter_process a input = None"
      using fl r1 r1' r2 lt ok(4,5) p
      by (simp add: AllpassFilter_process_alt Let_def n_def[symmetric] p_def[symmetric] to_int_nonneg
          rd_def wr_def)
    then show ?thesis using False p(2) by (simp add: n_def[symmetric] p_def[symmetric])
  qed
qed

lemma AllpassFilter_process_refines:
  assumes "allpass_ok a" "ap_currentDelay a = real_of_int k"
  shows "AllpassFilter_process a input = Some (AllpassFilter_process_spec a input)"
proof -
  define n where "n = length (ap_buffer a)"
  define q where "q = real_of_int (ap_writeIndex a) - ap_currentDelay a"
  define p where "p = (if q < 0 then q + real_of_int (int n) else q)"
  have ok: "1 \<le> ap_currentDelay a" "ap_currentDelay a \<le> real_of_int (ap_maxDelay a)"
    "int n = ap_maxDelay a + 4" "0 \<le> ap_writeIndex a" "ap_writeIndex a < int n" "1 \<le> ap_maxDelay a"
    "ap_maxDelay a + 4 < 2 ^ 24"
    using assms(1) by (auto simp: allpass_ok_def n_def)
  have k: "1 \<le> k" "k \<le> ap_maxDelay a" using ok(1,2) unfolding assms(2) by linarith+
  have rp: "read_position (ap_writeIndex a) (ap_currentDelay a) n = p"
    unfolding assms(2) p_def q_def
    by (rule read_position_integer[OF ok(6,7,3,4,5) k])
  obtain j :: int where j: "p = real_of_int j"
  proof (cases "q < 0")
    case True
    then have "p = real_of_int (ap_writeIndex a - k + int n)" by (simp add: p_def q_def assms(2))
    then show ?thesis by (rule that)
  next
    case False
    then have "p = real_of_int (ap_writeIndex a - k)" by (simp add: p_def q_def assms(2))
    then show ?thesis by (rule that)
  qed
  have p: "0 \<le> p" "p < real n"
    unfolding p_def q_def using read_position_range[OF ok(1-5)] by blast+
  have jn: "\<bar>j\<bar> < 2 ^ 24" using p ok(3,7) unfolding j by linarith
  have fr: "f32_round (p - f32_round (real_of_int \<lfloor>p\<rfloor>)) = p - real_of_int \<lfloor>p\<rfloor>"
    unfolding j using f32_round_int[OF jn] by (simp add: f32_round_0)
  have npos: "0 < n" using ok(3,6) by linarith
  have fl: "0 \<le> \<lfloor>p\<rfloor>" "\<lfloor>p\<rfloor> < int n" using floor_in_range[OF p] .
  have qlo: "- real n \<le> q"
  proof -
    have "real n = real_of_int (ap_maxDelay a) + 4" using ok(3) by (metis of_int_add of_int_numeral of_int_of_nat_eq)
    moreover have "0 \<le> real_of_int (ap_writeIndex a)" using ok(4) by simp
    ultimately show ?thesis using ok(2) by (simp add: q_def)
  qed
  have qhi: "q < real n"
  proof -
    have "real_of_int (ap_writeIndex a) < real n" using ok(5) by (metis of_int_less_iff of_int_of_nat_eq)
    then show ?thesis using ok(1) by (simp add: q_def)
  qed
  have w: "wrap_position q n = p"
    using wrap_position_cond[OF qlo qhi npos] by (simp add: p_def)
  have r1: "c_rem (\<lfloor>p\<rfloor> + 1) (int n) = Some ((\<lfloor>p\<rfloor> + 1) mod int n)"
    using fl npos by (intro c_rem_nonneg) auto
  have r1': "0 \<le> (\<lfloor>p\<rfloor> + 1) mod int n" "(\<lfloor>p\<rfloor> + 1) mod int n < int n"
    using npos by auto
  have r2: "c_rem (ap_writeIndex a + 1) (int n) = Some ((ap_writeIndex a + 1) mod int n)"
    using ok(4) npos by (intro c_rem_nonneg) auto
  have i1: "nat ((\<lfloor>p\<rfloor> + 1) mod int n) = (nat \<lfloor>p\<rfloor> + 1) mod n"
    using fl npos by (simp add: nat_mod_distrib nat_add_distrib)
  have i0: "real (nat \<lfloor>p\<rfloor>) = real_of_int \<lfloor>p\<rfloor>" using fl by simp
  show ?thesis
    unfolding AllpassFilter_process_alt AllpassFilter_process_spec_def readInterpolated_spec_def
    using p fl r1 r1' r2 w i1 i0 ok(4,5) fr
    by (simp add: Let_def n_def[symmetric] q_def[symmetric] rp to_int_nonneg rd_def wr_def)
qed


lemma AllpassFilter_processModulated_eq:
  "AllpassFilter_processModulated a input off =
     map_option (\<lambda>(y, a'). (y, a'\<lparr>ap_currentDelay := ap_currentDelay a\<rparr>))
       (AllpassFilter_process
          (a\<lparr>ap_currentDelay := jlimit 1 (f32_round (real_of_int (ap_maxDelay a)))
                                  (f32_round (ap_currentDelay a + off))\<rparr>)
          input)"
  unfolding AllpassFilter_processModulated_def AllpassFilter_process_def
  by (simp add: Let_def split: Option.bind_split)

subsection \<open>Modulated processing leaves the parameters alone\<close>

text \<open>Wherever \<^verbatim>\<open>processModulated\<close> returns, the stored delay, feedback, maximal delay and
  damping are the ones before the call.\<close>

lemma allpass_modulated_frame:
  "AllpassFilter_processModulated a input off = Some (y, a') \<Longrightarrow>
   ap_currentDelay a' = ap_currentDelay a \<and> ap_feedback a' = ap_feedback a \<and>
   ap_maxDelay a' = ap_maxDelay a"
  unfolding AllpassFilter_processModulated_def
  by (auto simp: Let_def split: Option.bind_splits)

lemma comb_modulated_frame:
  "CombFilter_processModulated c input off = Some (y, c') \<Longrightarrow>
   cf_currentDelay c' = cf_currentDelay c \<and> cf_feedback c' = cf_feedback c \<and>
   cf_damping c' = cf_damping c \<and> cf_maxDelay c' = cf_maxDelay c"
  unfolding CombFilter_processModulated_def
  by (auto simp: Let_def split: Option.bind_splits)

section \<open>CombFilter: processing one sample\<close>

text \<open>
  Claim C7 says that \<^verbatim>\<open>CombFilter::process\<close>, for every input sample, reads the delayed
  sample by interpolation at \<open>currentDelay\<close> behind the write index, updates the one-pole
  state, writes to the delay line, advances the write index and returns the delayed
  sample. The code does so wherever the read is inside the buffer (lemmas
  \<open>CombFilter_process_result\<close> and \<open>CombFilter_process_refines\<close>). It wraps a negative
  read position by adding the buffer size in \<^verbatim>\<open>float\<close>, and that sum can round to the buffer
  size itself; the read is then one element past the end of the buffer (lemma
  \<open>CombFilter_process_defined\<close>). The run below is such a case: a comb unit prepared for at most 4
  samples of delay (a buffer of 8 samples), with the delay \<open>1 + 2 ^ -23\<close>. The first call
  of \<^verbatim>\<open>process\<close> returns 0 and moves the write index to 1. In the second call the read
  position is \<open>1 - (1 + 2 ^ -23) = - 2 ^ -23\<close>, the wrapped position \<open>8 - 2 ^ -23\<close> rounds to
  8, and \<^verbatim>\<open>buffer[8]\<close> is read.
\<close>

theorem CombFilter_process_outside:
  "CombFilter_process CombFilter_short 1 =
     Some (0, CombFilter_short\<lparr>cf_buffer := [1, 0, 0, 0, 0, 0, 0, 0], cf_writeIndex := 1\<rparr>) \<and>
   CombFilter_process (CombFilter_short\<lparr>cf_buffer := [1, 0, 0, 0, 0, 0, 0, 0], cf_writeIndex := 1\<rparr>) 1 =
     None"
proof -
  have d: "CombFilter_short =
     \<lparr>cf_buffer = replicate 8 0, cf_writeIndex = 0, cf_maxDelay = 4,
      cf_currentDelay = 8388609 / 8388608, cf_feedback = 7 / 10, cf_damping = 3 / 10,
      cf_filterState = 0, cf_sampleRate = 44100\<rparr>"
    by (simp add: CombFilter_short_def CombFilter_setDelayTime_def CombFilter_prepare_def
        CombFilter_new_def jlimit_def f32_values)
  have "CombFilter_process CombFilter_short 1 =
     Some (0, CombFilter_short\<lparr>cf_buffer := [1, 0, 0, 0, 0, 0, 0, 0], cf_writeIndex := 1\<rparr>)"
    unfolding d
    by (simp add: CombFilter_process_def Let_def f32_values to_int_def c_rem_def rd_def wr_def
        numeral_eq_Suc)
  moreover have "CombFilter_process
      (CombFilter_short\<lparr>cf_buffer := [1, 0, 0, 0, 0, 0, 0, 0], cf_writeIndex := 1\<rparr>) 1 = None"
    unfolding d
    by (simp add: CombFilter_process_def Let_def f32_values to_int_def c_rem_def rd_def wr_def)
  ultimately show ?thesis by simp
qed

section \<open>Modulated processing\<close>

text \<open>
  Claim C8 says that \<^verbatim>\<open>processModulated\<close> of both units, for every input and offset,
  reads at \<open>clamp (currentDelay + offset, 1, maxDelay)\<close> and leaves the stored parameters
  alone. It does wherever it returns (lemmas \<open>CombFilter_processModulated_eq\<close>,
  \<open>AllpassFilter_processModulated_eq\<close>, \<open>comb_modulated_frame\<close>, \<open>allpass_modulated_frame\<close>).
  The read position is wrapped as in \<^verbatim>\<open>process\<close>, with the same rounding. The run
  below takes a comb unit and an allpass unit prepared for at most 4 samples of delay, with
  the delay 1, after one call of \<^verbatim>\<open>process\<close>: the write index is 1, and
  \<^verbatim>\<open>processModulated\<close> with the offset \<open>2 ^ -23\<close> reads at the delay \<open>1 + 2 ^ -23\<close>, so at
  the position \<open>- 2 ^ -23\<close>, which wraps to 8: both units read \<^verbatim>\<open>buffer[8]\<close>, one element
  past the end.
\<close>

theorem processModulated_outside:
  "CombFilter_process CombFilter_unit 1 =
     Some (0, CombFilter_unit\<lparr>cf_buffer := [1, 0, 0, 0, 0, 0, 0, 0], cf_writeIndex := 1\<rparr>) \<and>
   CombFilter_processModulated
     (CombFilter_unit\<lparr>cf_buffer := [1, 0, 0, 0, 0, 0, 0, 0], cf_writeIndex := 1\<rparr>) 1 (1 / 2 ^ 23) = None \<and>
   AllpassFilter_process AllpassFilter_unit 1 =
     Some (- (1 / 2), AllpassFilter_unit\<lparr>ap_buffer := [1, 0, 0, 0, 0, 0, 0, 0], ap_writeIndex := 1\<rparr>) \<and>
   AllpassFilter_processModulated
     (AllpassFilter_unit\<lparr>ap_buffer := [1, 0, 0, 0, 0, 0, 0, 0], ap_writeIndex := 1\<rparr>) 1 (1 / 2 ^ 23) = None"
proof -
  have c: "CombFilter_unit =
     \<lparr>cf_buffer = replicate 8 0, cf_writeIndex = 0, cf_maxDelay = 4,
      cf_currentDelay = 1, cf_feedback = 7 / 10, cf_damping = 3 / 10,
      cf_filterState = 0, cf_sampleRate = 44100\<rparr>"
    by (simp add: CombFilter_unit_def CombFilter_setDelayTime_def CombFilter_prepare_def
        CombFilter_new_def jlimit_def f32_values)
  have a: "AllpassFilter_unit =
     \<lparr>ap_buffer = replicate 8 0, ap_writeIndex = 0, ap_maxDelay = 4,
      ap_currentDelay = 1, ap_feedback = 1 / 2, ap_sampleRate = 44100\<rparr>"
    by (simp add: AllpassFilter_unit_def AllpassFilter_setDelayTime_def AllpassFilter_prepare_def
        AllpassFilter_new_def jlimit_def f32_values)
  have 1: "CombFilter_process CombFilter_unit 1 =
     Some (0, CombFilter_unit\<lparr>cf_buffer := [1, 0, 0, 0, 0, 0, 0, 0], cf_writeIndex := 1\<rparr>)"
    unfolding c
    by (simp add: CombFilter_process_def Let_def f32_values to_int_def c_rem_def rd_def wr_def
        numeral_eq_Suc)
  have 2: "CombFilter_processModulated
     (CombFilter_unit\<lparr>cf_buffer := [1, 0, 0, 0, 0, 0, 0, 0], cf_writeIndex := 1\<rparr>) 1 (1 / 2 ^ 23) = None"
    unfolding c
    by (simp add: CombFilter_processModulated_def Let_def f32_values to_int_def c_rem_def rd_def
        wr_def jlimit_def)
  have 3: "AllpassFilter_process AllpassFilter_unit 1 =
     Some (- (1 / 2), AllpassFilter_unit\<lparr>ap_buffer := [1, 0, 0, 0, 0, 0, 0, 0], ap_writeIndex := 1\<rparr>)"
    unfolding a
    by (simp add: AllpassFilter_process_def Let_def f32_values to_int_def c_rem_def rd_def wr_def
        numeral_eq_Suc)
  have 4: "AllpassFilter_processModulated
     (AllpassFilter_unit\<lparr>ap_buffer := [1, 0, 0, 0, 0, 0, 0, 0], ap_writeIndex := 1\<rparr>) 1 (1 / 2 ^ 23) = None"
    unfolding a
    by (simp add: AllpassFilter_processModulated_def Let_def f32_values to_int_def c_rem_def rd_def
        wr_def jlimit_def)
  show ?thesis using 1 2 3 4 by simp
qed

section \<open>ModulationEngine: reading a modulation output\<close>

text \<open>
  Claim C10. For every integer index \<open>i\<close>, \<^verbatim>\<open>getModulation (i)\<close> returns a value and reads
  nothing outside \<^verbatim>\<open>smoothedOutputs\<close>: for \<open>i\<close> outside \<open>[0, 8)\<close> the value is 0, otherwise
  it is the smoothed output register \<open>i\<close>. The function returns no state, as the C++ member
  is \<^verbatim>\<open>const\<close>. The hypothesis is the length that the type
  \<^verbatim>\<open>std::array<float, NumOutputs>\<close> fixes.
\<close>

theorem getModulation_total:
  assumes "length (me_smoothedOutputs m) = NumOutputs"
  shows "ModulationEngine_getModulation m i =
           Some (if i < 0 \<or> int NumOutputs \<le> i then 0 else me_smoothedOutputs m ! nat i) \<and>
         (0 \<le> i \<and> i < int NumOutputs \<longrightarrow> nat i < length (me_smoothedOutputs m))"
  using assms by (auto simp: ModulationEngine_getModulation_def rd_def)

theorem getModulation_total_witness:
  "ModulationEngine_getModulation (ModulationEngine_new\<lparr>me_smoothedOutputs := [1, 2, 3, 4, 5, 6, 7, 8]\<rparr>) 8 = Some 0 \<and>
   ModulationEngine_getModulation (ModulationEngine_new\<lparr>me_smoothedOutputs := [1, 2, 3, 4, 5, 6, 7, 8]\<rparr>) (- 1) = Some 0 \<and>
   ModulationEngine_getModulation (ModulationEngine_new\<lparr>me_smoothedOutputs := [1, 2, 3, 4, 5, 6, 7, 8]\<rparr>) 7 = Some 8"
  using getModulation_total[of "ModulationEngine_new\<lparr>me_smoothedOutputs := [1, 2, 3, 4, 5, 6, 7, 8]\<rparr>" 8]
    getModulation_total[of "ModulationEngine_new\<lparr>me_smoothedOutputs := [1, 2, 3, 4, 5, 6, 7, 8]\<rparr>" "- 1"]
    getModulation_total[of "ModulationEngine_new\<lparr>me_smoothedOutputs := [1, 2, 3, 4, 5, 6, 7, 8]\<rparr>" 7]
  by (simp add: NumOutputs_def)

section \<open>FairingSeparation: the sync duration\<close>

text \<open>
  Claim C9, as amended. \<^verbatim>\<open>setSyncBeats\<close> stores its argument clamped into the interval
  \<open>[1, 8]\<close>: the stored value lies between 1 and 8, and it is one of 1, 2, 4, 8 when the
  argument comes from \<^verbatim>\<open>FairingSync::getBeats\<close>, as it does in the plug-in's only call.
\<close>

theorem setSyncBeats_clamps:
  "fs_syncBeats (setSyncBeats beats f) = jlimit 1 8 beats \<and>
   1 \<le> fs_syncBeats (setSyncBeats beats f) \<and> fs_syncBeats (setSyncBeats beats f) \<le> 8 \<and>
   fs_syncBeats (setSyncBeats (getBeats index) f) \<in> {1, 2, 4, 8}"
  by (simp add: setSyncBeats_def jlimit_def getBeats_def)

theorem setSyncBeats_clamps_witness:
  "fs_syncBeats (setSyncBeats 100 FairingSeparation_new) = 8 \<and>
   fs_syncBeats (setSyncBeats (getBeats 0) FairingSeparation_new) \<in> {1, 2, 4, 8}"
  using setSyncBeats_clamps[of 100 FairingSeparation_new 0] by (simp add: jlimit_def)

text \<open>The claim as stated fails: 3 beats are stored as 3 beats.\<close>

theorem setSyncBeats_counterexample:
  "fs_syncBeats (setSyncBeats 3 FairingSeparation_new) \<notin> {1, 2, 4, 8}"
  by (simp add: setSyncBeats_def jlimit_def)

section \<open>AlgorithmicReverb: the comb feedback\<close>

lemma jlimit_998_999: "jlimit 0 0.999 (jlimit 0 0.998 (x::real)) = jlimit 0 0.998 x"
  by (simp add: jlimit_def)

lemma comb_grid_feedback:
  "ch < 2 \<Longrightarrow> i < n \<Longrightarrow>
   cf_feedback (map (\<lambda>ch. map (\<lambda>i. CombFilter_setDamping (D ch i)
       (CombFilter_setFeedback (F ch i) (G ch i))) [0..<n]) [0..<2] ! ch ! i) = jlimit 0 0.999 (F ch i)"
  by (simp add: CombFilter_setDamping_def CombFilter_setFeedback_def)

lemma ar_combFilters_update: "ar_combFilters (s\<lparr>ar_combFilters := g\<rparr>) = g"
  by simp

lemma updateDecay_feedback:
  assumes "ch < 2" "i < NumCombFilters"
  shows "cf_feedback (ar_combFilters (updateDecay s) ! ch ! i) =
           jlimit 0 0.998 (10 powr (- 3 * ((delayTimesMs ! i + (if ch = 0 then 0 else 1.7)) / 1000)
                                      / ar_decayTime s))"
  unfolding updateDecay_def Let_def
  apply (subst ar_combFilters_update)
  apply (subst comb_grid_feedback[OF assms])
  apply (rule jlimit_998_999)
  done

lemma updateDecay_bounded: "comb_feedback_bounded (updateDecay s)"
proof -
  have "0 \<le> jlimit 0 0.999 (jlimit 0 0.998 x) \<and> jlimit 0 0.999 (jlimit 0 0.998 x) < 1" for x :: real
    by (simp add: jlimit_def)
  then show ?thesis
    by (simp add: comb_feedback_bounded_def updateDecay_def Let_def list_all_iff
        CombFilter_setDamping_def CombFilter_setFeedback_def)
qed

lemma setters_keep_combs:
  "setPreDelay ms s = Some s' \<Longrightarrow> ar_combFilters s' = ar_combFilters s"
  "ar_combFilters (setHighCut J hz s) = ar_combFilters s"
  "ar_combFilters (setLowCut J hz s) = ar_combFilters s"
  "ar_combFilters (setWidth w s) = ar_combFilters s"
  "ar_combFilters (setDiffusionThrust J t s) = ar_combFilters s"
  "ar_combFilters (setModulationChaos c s) = ar_combFilters s"
  by (auto simp: setPreDelay_def setHighCut_def setLowCut_def setWidth_def
      setDiffusionThrust_def setModulationChaos_def updateFilters_def Let_def
      split: Option.bind_splits)

lemma reset_keeps_feedback:
  "comb_feedback_bounded s \<Longrightarrow> comb_feedback_bounded (AlgorithmicReverb_reset s)"
  by (simp add: comb_feedback_bounded_def AlgorithmicReverb_reset_def list_all_iff CombFilter_reset_def)

text \<open>
  Claim C1. For every decay time in \<open>[0.5, 30]\<close> seconds passed to \<^verbatim>\<open>setDecay\<close>, the
  feedback stored in every comb unit (channel \<open>ch < 2\<close>, unit \<open>i < 8\<close>) is
  \<open>10 ^ (- 3 * delaySeconds / decayTime)\<close> clamped into \<open>[0, 0.998]\<close>, where \<open>delaySeconds\<close>
  is the unit's delay time, and so it is below 1. The bound \<open>0 \<le> feedback < 1\<close> on all
  stored comb feedbacks holds after \<^verbatim>\<open>setDecay\<close> and after \<^verbatim>\<open>prepare\<close>, and every other
  setter and \<^verbatim>\<open>reset\<close> keep it (\<^verbatim>\<open>setPreDelay\<close> wherever its conversion to \<^verbatim>\<open>int\<close> is
  defined).
\<close>

theorem comb_feedback_stable:
  assumes "0.5 \<le> decayTime" "decayTime \<le> 30" "ch < 2" "i < NumCombFilters"
  shows "cf_feedback (ar_combFilters (setDecay decayTime s) ! ch ! i) =
           jlimit 0 0.998 (10 powr (- 3 * ((delayTimesMs ! i + (if ch = 0 then 0 else 1.7)) / 1000)
                                      / decayTime)) \<and>
         cf_feedback (ar_combFilters (setDecay decayTime s) ! ch ! i) < 1 \<and>
         comb_feedback_bounded (setDecay decayTime s) \<and>
         comb_feedback_bounded (AlgorithmicReverb_prepare J phaseDraw draw sr maxBlockSize s) \<and>
         (comb_feedback_bounded s \<longrightarrow>
            (\<forall>s'. setPreDelay ms s = Some s' \<longrightarrow> comb_feedback_bounded s') \<and>
            comb_feedback_bounded (setHighCut J hz s) \<and>
            comb_feedback_bounded (setLowCut J hz s) \<and> comb_feedback_bounded (setWidth w s) \<and>
            comb_feedback_bounded (setDiffusionThrust J t s) \<and>
            comb_feedback_bounded (setModulationChaos c s) \<and>
            comb_feedback_bounded (AlgorithmicReverb_reset s))"
proof -
  have d: "jlimit 0.5 30 decayTime = decayTime" using assms(1,2) by (simp add: jlimit_def)
  have e: "cf_feedback (ar_combFilters (setDecay decayTime s) ! ch ! i) =
           jlimit 0 0.998 (10 powr (- 3 * ((delayTimesMs ! i + (if ch = 0 then 0 else 1.7)) / 1000)
                                      / decayTime))"
    unfolding setDecay_def using updateDecay_feedback[OF assms(3,4)] d by simp
  have l: "jlimit 0 0.998 x < 1" for x :: real by (simp add: jlimit_def)
  have b: "comb_feedback_bounded (setDecay decayTime s)"
    unfolding setDecay_def by (rule updateDecay_bounded)
  have p: "comb_feedback_bounded (AlgorithmicReverb_prepare J phaseDraw draw sr maxBlockSize s)"
    unfolding AlgorithmicReverb_prepare_def Let_def by (rule updateDecay_bounded)
  have k: "comb_feedback_bounded s \<Longrightarrow>
            (\<forall>s'. setPreDelay ms s = Some s' \<longrightarrow> comb_feedback_bounded s') \<and>
            comb_feedback_bounded (setHighCut J hz s) \<and>
            comb_feedback_bounded (setLowCut J hz s) \<and> comb_feedback_bounded (setWidth w s) \<and>
            comb_feedback_bounded (setDiffusionThrust J t s) \<and>
            comb_feedback_bounded (setModulationChaos c s) \<and>
            comb_feedback_bounded (AlgorithmicReverb_reset s)"
    using reset_keeps_feedback by (simp add: comb_feedback_bounded_def setters_keep_combs)
  show ?thesis using e l b p k by simp
qed

theorem comb_feedback_stable_witness:
  "cf_feedback (ar_combFilters (setDecay 30 AlgorithmicReverb_example) ! 1 ! 7) =
     jlimit 0 0.998 (10 powr (- 3 * ((delayTimesMs ! 7 + (if (1::nat) = 0 then 0 else 1.7)) / 1000) / 30)) \<and>
   cf_feedback (ar_combFilters (setDecay 30 AlgorithmicReverb_example) ! 1 ! 7) < 1 \<and>
   comb_feedback_bounded (setWidth 2 (setDecay 30 AlgorithmicReverb_example))"
proof -
  have h: "(0.5::real) \<le> 30" "(30::real) \<le> 30" "(1::nat) < 2" "7 < NumCombFilters"
    by (simp_all add: NumCombFilters_def)
  note a = comb_feedback_stable[OF h, where s = AlgorithmicReverb_example and w = 2
      and J = IIRDesign_example and phaseDraw = "\<lambda>i. 0" and draw = "\<lambda>i. 0" and sr = 44100
      and maxBlockSize = 512 and ms = 0 and hz = 1000 and t = 0 and c = 0]
  note b = comb_feedback_stable[OF h, where s = "setDecay 30 AlgorithmicReverb_example" and w = 2
      and J = IIRDesign_example and phaseDraw = "\<lambda>i. 0" and draw = "\<lambda>i. 0" and sr = 44100
      and maxBlockSize = 512 and ms = 0 and hz = 1000 and t = 0 and c = 0]
  show ?thesis using a b by blast
qed

section \<open>DiffusionNetwork: the number of active stages\<close>

subsection \<open>Stages that process does not run\<close>

lemma foldM_preserves:
  assumes "foldM f xs s = Some s'" "Q s"
    and "\<And>x t t'. x \<in> set xs \<Longrightarrow> Q t \<Longrightarrow> f x t = Some t' \<Longrightarrow> Q t'"
  shows "Q s'"
  using assms
proof (induction xs arbitrary: s)
  case Nil
  then show ?case by simp
next
  case (Cons x xs)
  from Cons.prems(1) obtain t where t: "f x s = Some t" "foldM f xs t = Some s'"
    by (auto split: option.splits)
  have "Q t" using Cons.prems(3)[of x s t] Cons.prems(2) t(1) by simp
  then show ?case using Cons.IH[OF t(2)] Cons.prems(3) by auto
qed




subsection \<open>The count\<close>

lemma thrust_of_setThrust:
  "dn_thrustAmount (DiffusionNetwork_setThrust J t d) = jlimit 0 1 t"
  by (simp add: DiffusionNetwork_setThrust_def updateThrustFilter_def Let_def)

text \<open>The rounded sum lies between the integers next to the exact sum.\<close>

lemma rounded_sum_bounds:
  fixes x :: real and k :: int
  assumes "0 \<le> k" "k \<le> 6"
  shows "real_of_int k \<le> x \<Longrightarrow> real_of_int (2 + k) \<le> f32_round (2 + f32_round x)"
    and "0 \<le> x \<Longrightarrow> x \<le> real_of_int k \<Longrightarrow> f32_round (2 + f32_round x) \<le> real_of_int (2 + k)"
proof -
  assume a: "real_of_int k \<le> x"
  have "real_of_int k \<le> f32_round x" using assms a by (intro f32_round_ge_int) auto
  then have "real_of_int (2 + k) \<le> 2 + f32_round x" by simp
  then show "real_of_int (2 + k) \<le> f32_round (2 + f32_round x)"
    using assms by (intro f32_round_ge_int) auto
next
  assume a: "0 \<le> x" "x \<le> real_of_int k"
  have u: "f32_round x \<le> real_of_int k" using assms a by (intro f32_round_le_int) auto
  have "real_of_int 0 \<le> f32_round x" using a(1) by (intro f32_round_ge_int) auto
  then have l: "0 \<le> 2 + f32_round x" by simp
  have "2 + f32_round x \<le> real_of_int (2 + k)" using u by simp
  then show "f32_round (2 + f32_round x) \<le> real_of_int (2 + k)"
    using assms l by (intro f32_round_le_int) auto
qed

lemma activeStages_value:
  "getActiveStages (DiffusionNetwork_setThrust J t d) =
     \<lfloor>f32_round (2 + f32_round (jlimit 0 1 t * 6))\<rfloor>"
proof -
  have "0 \<le> jlimit 0 1 t * 6" by (simp add: jlimit_def)
  then have "real_of_int 2 \<le> f32_round (2 + f32_round (jlimit 0 1 t * 6))"
    using rounded_sum_bounds(1)[of 0 "jlimit 0 1 t * 6"] by simp
  then show ?thesis
    by (simp add: getActiveStages_def thrust_of_setThrust NumStages_def to_int_def)
qed





text \<open>A thrust at which the rounding of the sum decides: \<open>t * 6 = 1 - 2 ^ -24\<close> is a
  binary32 number, \<open>2 + t * 6\<close> rounds to 3, and 3 stages are engaged, although the exact
  sum is below 3.\<close>

lemma activeStages_rounds_up:
  "getActiveStages (DiffusionNetwork_setThrust IIRDesign_example (5592405 / 2 ^ 25) DiffusionNetwork_new) = 3 \<and>
   \<lfloor>2 + 5592405 / 2 ^ 25 * 6 :: real\<rfloor> = 2"
proof -
  have a: "f32_round (16777215 / 16777216) = 16777215 / 16777216"
    by (rule f32_round_exact_binade[where e = "- 1" and m = "16777215"]) (simp_all add: power_int_minus)
  have "f32_round (50331647 / 16777216) =
        real_of_int (rne (50331647 / 16777216 / 2 powi (1 - 23))) * 2 powi (1 - 23)"
    by (rule f32_round_binade) (simp_all add: power_int_minus)
  also have "\<dots> = 3" by (simp add: rne_def power_int_minus)
  finally have b: "f32_round (50331647 / 16777216) = 3" .
  have "getActiveStages (DiffusionNetwork_setThrust IIRDesign_example (5592405 / 2 ^ 25) DiffusionNetwork_new) = 3"
    unfolding activeStages_value by (simp add: jlimit_def a b)
  moreover have "\<lfloor>2 + 5592405 / 2 ^ 25 * 6 :: real\<rfloor> = 2" by simp
  ultimately show ?thesis by simp
qed

section \<open>Loops and silent buffers\<close>

lemma foldM_append:
  "foldM f (xs @ ys) s = (case foldM f xs s of None \<Rightarrow> None | Some s' \<Rightarrow> foldM f ys s')"
  by (induction xs arbitrary: s) (auto split: option.splits)

lemma foldM_invariant:
  assumes "I s" and "\<And>x s. x \<in> set xs \<Longrightarrow> I s \<Longrightarrow> \<exists>s'. f x s = Some s' \<and> I s'"
  shows "\<exists>s'. foldM f xs s = Some s' \<and> I s'"
  using assms
proof (induction xs arbitrary: s)
  case Nil
  then show ?case by simp
next
  case (Cons x xs)
  from Cons.prems obtain s1 where s1: "f x s = Some s1" "I s1" by (meson list.set_intros(1))
  have "\<exists>s'. foldM f xs s1 = Some s' \<and> I s'"
    by (rule Cons.IH[OF s1(2)]) (use Cons.prems(2) in auto)
  then show ?case using s1 by simp
qed

lemma zeros_nth: "zeros v \<Longrightarrow> i < length v \<Longrightarrow> v ! i = 0"
  by (simp add: zeros_def list_all_length)

lemma zeros_replicate: "zeros (replicate n 0)"
  by (simp add: zeros_def list_all_iff)

lemma zeros_eq: "zeros v \<longleftrightarrow> v = replicate (length v) 0"
  by (auto simp: zeros_def list_all_iff intro: replicate_eqI dest: arg_cong[where f = set] split: if_splits)

lemma getSample_new:
  "ch < k \<Longrightarrow> i < n \<Longrightarrow> getSample (AudioBuffer_new k n) ch i = Some 0"
  by (simp add: getSample_def AudioBuffer_new_def rd_def)

lemma replicate_update_same: "(replicate n x)[i := x] = replicate n x"
  by (induction n arbitrary: i) (auto split: nat.splits)

lemma setSample_new:
  "ch < k \<Longrightarrow> i < n \<Longrightarrow> setSample (AudioBuffer_new k n) ch i 0 = Some (AudioBuffer_new k n)"
  by (simp add: setSample_def AudioBuffer_new_def rd_def wr_def replicate_update_same)

lemma list_all_update:
  "list_all P xs \<Longrightarrow> P y \<Longrightarrow> list_all P (xs[i := y])"
  by (metis length_list_update list_all_length nth_list_update_eq nth_list_update_neq)

lemma zeros_map: "zeros (map (\<lambda>_. 0) v)"
  by (simp add: zeros_def list_all_iff)

section \<open>AlgorithmicReverb: silence after reset\<close>

subsection \<open>Silence in, silence out\<close>

text \<open>A unit whose delay line holds zeros returns zero for the input zero and keeps a
  delay line of zeros, wherever its read is inside the buffer; so do the loops of
  \<^verbatim>\<open>process\<close>. The lemmas are stated for the calls that return: a call that reads outside
  a buffer has no result to speak of.\<close>

lemma rd_zeros: "zeros v \<Longrightarrow> rd v i = Some x \<Longrightarrow> x = 0"
  by (auto simp: rd_def zeros_def list_all_length split: if_splits)

lemma wr_zeros: "zeros v \<Longrightarrow> wr v i 0 = Some v' \<Longrightarrow> v' = v"
  by (auto simp: wr_def zeros_def list_all_length list_eq_iff_nth_eq nth_list_update split: if_splits)

lemma getSample_zero: "getSample (AudioBuffer_new k n) ch i = Some x \<Longrightarrow> x = 0"
  by (auto simp: getSample_def AudioBuffer_new_def rd_def split: Option.bind_splits if_splits)

lemma setSample_zero:
  "setSample (AudioBuffer_new k n) ch i 0 = Some b \<Longrightarrow> b = AudioBuffer_new k n"
  by (auto simp: setSample_def AudioBuffer_new_def rd_def wr_def replicate_update_same
      split: Option.bind_splits if_splits)

lemma allpass_silent_step:
  assumes "allpass_silent a" "AllpassFilter_process a 0 = Some (y, a')"
  shows "y = 0 \<and> allpass_silent a'"
proof -
  have z: "zeros (ap_buffer a)" using assms(1) by (simp add: allpass_silent_def)
  show ?thesis
    using assms(2) unfolding AllpassFilter_process_def Let_def
    by (auto simp: allpass_silent_def z dest!: rd_zeros[OF z] wr_zeros[OF z]
        split: Option.bind_splits)
qed

lemma comb_silent_step:
  assumes "comb_silent c" "CombFilter_processModulated c 0 off = Some (y, c')"
  shows "y = 0 \<and> comb_silent c'"
proof -
  have z: "zeros (cf_buffer c)" "cf_filterState c = 0" using assms(1) by (simp_all add: comb_silent_def)
  show ?thesis
    using assms(2) unfolding CombFilter_processModulated_def Let_def
    by (auto simp: comb_silent_def z dest!: rd_zeros[OF z(1)] wr_zeros[OF z(1)]
        split: Option.bind_splits)
qed

lemma IIRFilter_silent:
  assumes "iir_v1 f = 0" "iir_v2 f = 0"
  shows "IIRFilter_process co f (replicate n 0) = (replicate n 0, f)"
proof (induction n)
  case 0
  show ?case by simp
next
  case (Suc n)
  have "f\<lparr>iir_v1 := 0, iir_v2 := 0\<rparr> = f\<lparr>iir_v1 := iir_v1 f, iir_v2 := iir_v2 f\<rparr>"
    by (simp only: assms)
  then have f: "f\<lparr>iir_v1 := 0, iir_v2 := 0\<rparr> = f" by simp
  show ?case using Suc by (simp add: IIRFilter_processSample_def Let_def assms f)
qed

lemma width_silent: "applyStereoWidth w n (AudioBuffer_new 2 n) = Some (AudioBuffer_new 2 n)"
proof -
  have "\<exists>b. foldM (width_sample w) [0..<n] (AudioBuffer_new 2 n) = Some b \<and> b = AudioBuffer_new 2 n"
  proof (rule foldM_invariant[where I = "\<lambda>b. b = AudioBuffer_new 2 n"])
    show "AudioBuffer_new 2 n = AudioBuffer_new 2 n" by simp
  next
    fix x and b :: AudioBuffer
    assume "x \<in> set [0..<n]" and "b = AudioBuffer_new 2 n"
    then show "\<exists>s'. width_sample w x b = Some s' \<and> s' = AudioBuffer_new 2 n"
      by (simp add: width_sample_def getSample_new setSample_new)
  qed
  then show ?thesis by (simp add: applyStereoWidth_def)
qed

lemma copy_back_silent:
  "foldM (\<lambda>ch b. copyFrom b ch (AudioBuffer_new 2 n) ch n) [0..<nat (jmin (int nch) 2)]
     (AudioBuffer_new nch n) = Some (AudioBuffer_new nch n)"
proof -
  have "\<exists>b. foldM (\<lambda>ch b. copyFrom b ch (AudioBuffer_new 2 n) ch n) [0..<nat (jmin (int nch) 2)]
     (AudioBuffer_new nch n) = Some b \<and> b = AudioBuffer_new nch n"
  proof (rule foldM_invariant[where I = "\<lambda>b. b = AudioBuffer_new nch n"])
    show "AudioBuffer_new nch n = AudioBuffer_new nch n" by simp
  next
    fix x and b :: AudioBuffer
    assume x: "x \<in> set [0..<nat (jmin (int nch) 2)]" and b: "b = AudioBuffer_new nch n"
    have x2: "x < 2" "x < nch" using x by (auto simp: jmin_def split: if_splits)
    show "\<exists>s'. copyFrom b x (AudioBuffer_new 2 n) x n = Some s' \<and> s' = AudioBuffer_new nch n"
      using x2 by (simp add: b copyFrom_def AudioBuffer_new_def rd_def replicate_update_same)
  qed
  then show ?thesis by simp
qed


lemma duplicator_silent_process:
  assumes "duplicator_silent p" "ProcessorDuplicator_process p (AudioBuffer_new k n) = Some (p', b')"
  shows "b' = AudioBuffer_new k n \<and> duplicator_silent p'"
proof -
  have le: "k \<le> length (pd_filters p)"
    using assms(2) by (auto simp: ProcessorDuplicator_process_def AudioBuffer_new_def Let_def split: if_splits)
  define fs where "fs = take k (pd_filters p)"
  have fs: "length fs = k" "list_all (\<lambda>f. iir_v1 f = 0 \<and> iir_v2 f = 0) fs"
    using le assms(1) by (auto simp: fs_def duplicator_silent_def list_all_iff dest: in_set_takeD)
  have m: "map2 (IIRFilter_process (pd_state p)) fs (replicate k (replicate n 0)) =
           map (\<lambda>f. (replicate n 0, f)) fs"
    using fs
  proof (induction fs arbitrary: k)
    case Nil
    then show ?case by simp
  next
    case (Cons f fs)
    then obtain j where j: "k = Suc j" by (cases k) auto
    have "length fs = j" "list_all (\<lambda>f. iir_v1 f = 0 \<and> iir_v2 f = 0) fs"
      using Cons.prems j by simp_all
    then have "map2 (IIRFilter_process (pd_state p)) fs (replicate j (replicate n 0)) =
           map (\<lambda>f. (replicate n 0, f)) fs" by (rule Cons.IH)
    then show ?case using Cons.prems(2) by (simp add: j IIRFilter_silent)
  qed
  have e: "ProcessorDuplicator_process p (AudioBuffer_new k n) =
     Some (p\<lparr>pd_filters := fs @ drop k (pd_filters p)\<rparr>,
           (AudioBuffer_new k n)\<lparr>ab_data := replicate k (replicate n 0)\<rparr>)"
    using le fs(1)
    by (simp add: ProcessorDuplicator_process_def AudioBuffer_new_def Let_def fs_def[symmetric] m
        comp_def map_replicate_const)
  have "fs @ drop k (pd_filters p) = pd_filters p" by (simp add: fs_def)
  then show ?thesis
    using assms e by (auto simp: AudioBuffer_new_def)
qed

lemma dn_stage_silent:
  assumes "diffusion_silent d" "dn_stage ch st (0, d) = Some (y, d')"
  shows "y = 0 \<and> diffusion_silent d'"
proof -
  from assms(2) obtain row a a' where
    r: "rd (dn_allpassFilters d) (int ch) = Some row" "rd row (int st) = Some a"
    and p: "AllpassFilter_process a 0 = Some (y, a')"
    and d': "d' = d\<lparr>dn_allpassFilters := (dn_allpassFilters d)[ch := row[st := a']]\<rparr>"
    by (auto simp: dn_stage_def split: Option.bind_splits)
  have rows: "list_all (list_all allpass_silent) (dn_allpassFilters d)"
    using assms(1) by (simp add: diffusion_silent_def)
  have row: "row = dn_allpassFilters d ! ch" "ch < length (dn_allpassFilters d)"
    using r(1) by (auto simp: rd_def split: if_splits)
  have a: "a = row ! st" "st < length row" using r(2) by (auto simp: rd_def split: if_splits)
  have rw: "list_all allpass_silent row" using rows row by (simp add: list_all_length)
  then have "allpass_silent a" using a by (simp add: list_all_length)
  then have s: "y = 0" "allpass_silent a'" using allpass_silent_step[OF _ p] by simp_all
  have "list_all allpass_silent (row[st := a'])" using rw s(2) by (rule list_all_update)
  then have "list_all (list_all allpass_silent) ((dn_allpassFilters d)[ch := row[st := a']])"
    by (rule list_all_update[OF rows])
  then show ?thesis using assms(1) s(1) by (simp add: diffusion_silent_def d')
qed

lemma dn_sample_silent:
  assumes "diffusion_silent (fst t) \<and> snd t = AudioBuffer_new k n" "dn_sample a ch i t = Some t'"
  shows "diffusion_silent (fst t') \<and> snd t' = AudioBuffer_new k n"
proof -
  obtain d b where t: "t = (d, b)" by (cases t)
  have b: "b = AudioBuffer_new k n" and d: "diffusion_silent d" using assms(1) t by simp_all
  from assms(2) obtain x y d' b' where
    g: "getSample b ch i = Some x"
    and f: "foldM (dn_stage ch) [0..<nat a] (x, d) = Some (y, d')"
    and w: "setSample b ch i y = Some b'" and t': "t' = (d', b')"
    unfolding t by (auto simp: dn_sample_def split: Option.bind_splits)
  have x: "x = 0" using g unfolding b by (rule getSample_zero)
  have "fst (y, d') = 0 \<and> diffusion_silent (snd (y, d'))"
  proof (rule foldM_preserves[OF f, where Q = "\<lambda>u. fst u = 0 \<and> diffusion_silent (snd u)"])
    show "fst (x, d) = 0 \<and> diffusion_silent (snd (x, d))" using x d by simp
  next
    fix st and u u' :: "real \<times> DiffusionNetwork"
    assume "fst u = 0 \<and> diffusion_silent (snd u)" "dn_stage ch st u = Some u'"
    then show "fst u' = 0 \<and> diffusion_silent (snd u')"
      using dn_stage_silent[of "snd u" ch st "fst u'" "snd u'"] by (cases u) simp
  qed
  then have y: "y = 0" "diffusion_silent d'" by simp_all
  have "b' = AudioBuffer_new k n" using w unfolding b y(1) by (rule setSample_zero)
  then show ?thesis using y(2) by (simp add: t')
qed

lemma diffusion_silent_process:
  assumes "diffusion_silent d" "DiffusionNetwork_process d (AudioBuffer_new k n) = Some (d', b')"
  shows "b' = AudioBuffer_new k n \<and> diffusion_silent d'"
proof -
  define Z where "Z = AudioBuffer_new k n"
  have ns: "ab_numSamples Z = n" by (simp add: Z_def AudioBuffer_new_def)
  from assms(2) obtain d1 b1 where
    f: "foldM (\<lambda>ch. foldM (dn_sample (getActiveStages d) ch) [0..<n])
          [0..<nat (jmin (getNumChannels Z) (int NumChannels))] (d, Z) = Some (d1, b1)"
    and r: "(if dn_thrustAmount d1 > 0.01
             then do {
               (f, b2) \<leftarrow> ProcessorDuplicator_process (dn_lowMidFilter d1) b1;
               Some (d1\<lparr>dn_lowMidFilter := f\<rparr>, b2)
             }
             else Some (d1, b1)) = Some (d', b')"
    unfolding DiffusionNetwork_process_def Let_def Z_def[symmetric] ns
    by (auto split: Option.bind_splits)
  have i: "diffusion_silent (fst (d1, b1)) \<and> snd (d1, b1) = Z"
  proof (rule foldM_preserves[OF f, where Q = "\<lambda>t. diffusion_silent (fst t) \<and> snd t = Z"])
    show "diffusion_silent (fst (d, Z)) \<and> snd (d, Z) = Z" using assms(1) by simp
  next
    fix ch and t t' :: "DiffusionNetwork \<times> AudioBuffer"
    assume q: "diffusion_silent (fst t) \<and> snd t = Z"
      and s: "foldM (dn_sample (getActiveStages d) ch) [0..<n] t = Some t'"
    show "diffusion_silent (fst t') \<and> snd t' = Z"
    proof (rule foldM_preserves[OF s, where Q = "\<lambda>t. diffusion_silent (fst t) \<and> snd t = Z"])
      show "diffusion_silent (fst t) \<and> snd t = Z" by (rule q)
    next
      fix j and u u' :: "DiffusionNetwork \<times> AudioBuffer"
      assume "diffusion_silent (fst u) \<and> snd u = Z" "dn_sample (getActiveStages d) ch j u = Some u'"
      then show "diffusion_silent (fst u') \<and> snd u' = Z"
        unfolding Z_def by (rule dn_sample_silent)
    qed
  qed
  then have i': "diffusion_silent d1" "b1 = Z" by simp_all
  show ?thesis
  proof (cases "dn_thrustAmount d1 > 0.01")
    case False
    then show ?thesis using r i' by (simp add: Z_def)
  next
    case True
    then obtain f where p: "ProcessorDuplicator_process (dn_lowMidFilter d1) b1 = Some (f, b')"
      and d': "d' = d1\<lparr>dn_lowMidFilter := f\<rparr>"
      using r by (auto split: Option.bind_splits)
    have "duplicator_silent (dn_lowMidFilter d1)" using i'(1) by (simp add: diffusion_silent_def)
    then have "b' = AudioBuffer_new k n \<and> duplicator_silent f"
      using p unfolding i'(2) Z_def by (rule duplicator_silent_process)
    then show ?thesis using i'(1) by (simp add: d' diffusion_silent_def)
  qed
qed

lemma preDelay_sample_silent:
  assumes "reverb_silent (fst t) \<and> snd t = AudioBuffer_new 2 n"
    "preDelay_sample (AudioBuffer_new nch n) draws numChannels sample t = Some t'"
  shows "reverb_silent (fst t') \<and> snd t' = AudioBuffer_new 2 n"
proof -
  obtain s w where t: "t = (s, w)" by (cases t)
  have w: "w = AudioBuffer_new 2 n" and s: "reverb_silent s" using assms(1) t by simp_all
  from assms(2) obtain pre0 pre1 leftIn rightIn pre0' pre1' wi' idx l r w1 w2 where
    r0: "rd (ar_preDelayBuffer s) 0 = Some pre0" and r1: "rd (ar_preDelayBuffer s) 1 = Some pre1"
    and li: "(if numChannels > 0 then getSample (AudioBuffer_new nch n) 0 sample else Some 0) = Some leftIn"
    and ri: "(if numChannels > 1 then getSample (AudioBuffer_new nch n) 1 sample else Some leftIn) = Some rightIn"
    and w0: "wr pre0 (ar_preDelayWriteIndex s) leftIn = Some pre0'"
    and w1: "wr pre1 (ar_preDelayWriteIndex s) rightIn = Some pre1'"
    and d0: "rd pre0' idx = Some l" and d1: "rd pre1' idx = Some r"
    and s1: "setSample w 0 sample l = Some w1" and s2: "setSample w1 1 sample r = Some w2"
    and t': "t' = (s\<lparr>ar_modulationEngine :=
                       ModulationEngine_processSample (draws sample) (ar_modulationEngine s),
                     ar_preDelayBuffer := (ar_preDelayBuffer s)[0 := pre0', 1 := pre1'],
                     ar_preDelayWriteIndex := wi'\<rparr>, w2)"
    unfolding t by (auto simp: preDelay_sample_def Let_def split: Option.bind_splits)
  have pz: "list_all zeros (ar_preDelayBuffer s)" using s by (simp add: reverb_silent_def)
  have p: "pre0 = ar_preDelayBuffer s ! 0" "0 < length (ar_preDelayBuffer s)"
    "pre1 = ar_preDelayBuffer s ! 1" "1 < length (ar_preDelayBuffer s)"
    using r0 r1 by (auto simp: rd_def split: if_splits)
  have z: "zeros pre0" "zeros pre1" using pz p by (simp_all add: list_all_length)
  have l0: "leftIn = 0" using li by (auto dest: getSample_zero split: if_splits)
  have r0': "rightIn = 0" using ri l0 by (auto dest: getSample_zero split: if_splits)
  have e: "pre0' = pre0" "pre1' = pre1"
    using w0 w1 unfolding l0 r0' by (auto dest: wr_zeros[OF z(1)] wr_zeros[OF z(2)])
  have lr: "l = 0" "r = 0" using d0 d1 unfolding e by (auto dest: rd_zeros[OF z(1)] rd_zeros[OF z(2)])
  have "w1 = AudioBuffer_new 2 n" using s1 unfolding w lr by (rule setSample_zero)
  then have w2: "w2 = AudioBuffer_new 2 n" using s2 unfolding lr by (auto dest: setSample_zero)
  have same: "(ar_preDelayBuffer s)[0 := pre0, Suc 0 := pre1] = ar_preDelayBuffer s"
    by (simp add: p(1,3))
  show ?thesis using s w2 by (simp add: t' e same reverb_silent_def)
qed

lemma comb_filter_step_silent:
  assumes "fst t = 0 \<and> reverb_silent (snd t)" "comb_filter_step ch 0 i t = Some t'"
  shows "fst t' = 0 \<and> reverb_silent (snd t')"
proof -
  obtain x s where t: "t = (x, s)" by (cases t)
  have x: "x = 0" and s: "reverb_silent s" using assms(1) t by simp_all
  from assms(2) obtain row c v y c' where
    r: "rd (ar_combFilters s) (int ch) = Some row" "rd row (int i) = Some c"
    and p: "CombFilter_processModulated c (0 / real NumCombFilters) v = Some (y, c')"
    and t': "t' = (x + y * (if (i + ch) mod 2 = 0 then 1 else - 1),
                   s\<lparr>ar_combFilters := (ar_combFilters s)[ch := row[i := c']]\<rparr>)"
    unfolding t by (auto simp: comb_filter_step_def Let_def split: Option.bind_splits)
  have rows: "list_all (list_all comb_silent) (ar_combFilters s)"
    using s by (simp add: reverb_silent_def)
  have row: "row = ar_combFilters s ! ch" "ch < length (ar_combFilters s)"
    using r(1) by (auto simp: rd_def split: if_splits)
  have c: "c = row ! i" "i < length row" using r(2) by (auto simp: rd_def split: if_splits)
  have rw: "list_all comb_silent row" using rows row by (simp add: list_all_length)
  then have "comb_silent c" using c by (simp add: list_all_length)
  moreover have "CombFilter_processModulated c 0 v = Some (y, c')" using p by simp
  ultimately have y: "y = 0" "comb_silent c'" using comb_silent_step by blast+
  have "list_all comb_silent (row[i := c'])" using rw y(2) by (rule list_all_update)
  then have "list_all (list_all comb_silent) ((ar_combFilters s)[ch := row[i := c']])"
    by (rule list_all_update[OF rows])
  then show ?thesis using s x y(1) by (simp add: t' reverb_silent_def)
qed

lemma comb_channel_silent:
  assumes "reverb_silent (fst t) \<and> snd t = AudioBuffer_new 2 n" "comb_channel sample ch t = Some t'"
  shows "reverb_silent (fst t') \<and> snd t' = AudioBuffer_new 2 n"
proof -
  obtain s w where t: "t = (s, w)" by (cases t)
  have w: "w = AudioBuffer_new 2 n" and s: "reverb_silent s" using assms(1) t by simp_all
  from assms(2) obtain x y s' w' where
    g: "getSample w ch sample = Some x"
    and f: "foldM (comb_filter_step ch x) [0..<NumCombFilters] (0, s) = Some (y, s')"
    and sw: "setSample w ch sample y = Some w'" and t': "t' = (s', w')"
    unfolding t by (auto simp: comb_channel_def split: Option.bind_splits)
  have x: "x = 0" using g unfolding w by (rule getSample_zero)
  have "fst (y, s') = 0 \<and> reverb_silent (snd (y, s'))"
  proof (rule foldM_preserves[OF f, where Q = "\<lambda>u. fst u = 0 \<and> reverb_silent (snd u)"])
    show "fst (0::real, s) = 0 \<and> reverb_silent (snd (0::real, s))" using s by simp
  next
    fix i and u u' :: "real \<times> AlgorithmicReverb"
    assume "fst u = 0 \<and> reverb_silent (snd u)" "comb_filter_step ch x i u = Some u'"
    then show "fst u' = 0 \<and> reverb_silent (snd u')"
      unfolding x by (rule comb_filter_step_silent)
  qed
  then have y: "y = 0" "reverb_silent s'" by simp_all
  have "w' = AudioBuffer_new 2 n" using sw unfolding w y(1) by (rule setSample_zero)
  then show ?thesis using y(2) by (simp add: t')
qed

lemma comb_sample_silent:
  assumes "reverb_silent (fst t) \<and> snd t = AudioBuffer_new 2 n" "comb_sample sample t = Some t'"
  shows "reverb_silent (fst t') \<and> snd t' = AudioBuffer_new 2 n"
proof -
  have f: "foldM (comb_channel sample) [0..<2] t = Some t'"
    using assms(2) by (simp add: comb_sample_def)
  show ?thesis
  proof (rule foldM_preserves[OF f,
        where Q = "\<lambda>t. reverb_silent (fst t) \<and> snd t = AudioBuffer_new 2 n"])
    show "reverb_silent (fst t) \<and> snd t = AudioBuffer_new 2 n" by (rule assms(1))
  next
    fix ch and u u' :: "AlgorithmicReverb \<times> AudioBuffer"
    assume "reverb_silent (fst u) \<and> snd u = AudioBuffer_new 2 n" "comb_channel sample ch u = Some u'"
    then show "reverb_silent (fst u') \<and> snd u' = AudioBuffer_new 2 n"
      by (rule comb_channel_silent)
  qed
qed

lemma reset_silent: "reverb_silent (AlgorithmicReverb_reset s)"
  by (simp add: reverb_silent_def AlgorithmicReverb_reset_def DiffusionNetwork_reset_def
      diffusion_silent_def duplicator_silent_def ProcessorDuplicator_reset_def IIRFilter_reset_def
      comb_silent_def CombFilter_reset_def allpass_silent_def AllpassFilter_reset_def
      list_all_iff zeros_map)

text \<open>Silence in, silence out, wherever \<^verbatim>\<open>process\<close> has a defined result.\<close>

lemma process_silent:
  assumes "reverb_silent s"
    "AlgorithmicReverb_process draws s (AudioBuffer_new nch n) = Some (s', buffer')"
  shows "buffer' = AudioBuffer_new nch n \<and> reverb_silent s'"
proof -
  define Z where "Z = AudioBuffer_new 2 n"
  have ns: "ab_numSamples (AudioBuffer_new nch n) = n"
    and nc: "getNumChannels (AudioBuffer_new nch n) = int nch"
    by (simp_all add: AudioBuffer_new_def getNumChannels_def)
  from assms(2) obtain s1 w1 dn w2 s3 w3 hc w4 lc w5 w6 m where
    a: "foldM (preDelay_sample (AudioBuffer_new nch n) draws (jmin (int nch) 2)) [0..<n] (s, Z) =
          Some (s1, w1)"
    and b: "DiffusionNetwork_process (ar_diffusionNetwork s1) w1 = Some (dn, w2)"
    and c: "foldM comb_sample [0..<n] (s1\<lparr>ar_diffusionNetwork := dn\<rparr>, w2) = Some (s3, w3)"
    and d: "ProcessorDuplicator_process (ar_highCutFilter s3) w3 = Some (hc, w4)"
    and e: "ProcessorDuplicator_process (ar_lowCutFilter s3) w4 = Some (lc, w5)"
    and f: "applyStereoWidth (ar_width s3) n w5 = Some w6"
    and g: "foldM (\<lambda>ch b. copyFrom b ch w6 ch n) [0..<nat (jmin (int nch) 2)]
              (AudioBuffer_new nch n) = Some buffer'"
    and s': "s' = s3\<lparr>ar_highCutFilter := hc, ar_lowCutFilter := lc,
                    ar_decayEnvelope := ar_decayEnvelope s3 * 0.99 + m * 0.01\<rparr>"
    unfolding AlgorithmicReverb_process_def Let_def ns nc Z_def
    by (auto split: Option.bind_splits)
  have 1: "reverb_silent (fst (s1, w1)) \<and> snd (s1, w1) = Z"
  proof (rule foldM_preserves[OF a, where Q = "\<lambda>t. reverb_silent (fst t) \<and> snd t = Z"])
    show "reverb_silent (fst (s, Z)) \<and> snd (s, Z) = Z" using assms(1) by simp
  next
    fix i and u u' :: "AlgorithmicReverb \<times> AudioBuffer"
    assume "reverb_silent (fst u) \<and> snd u = Z"
      "preDelay_sample (AudioBuffer_new nch n) draws (jmin (int nch) 2) i u = Some u'"
    then show "reverb_silent (fst u') \<and> snd u' = Z"
      unfolding Z_def by (rule preDelay_sample_silent)
  qed
  have "diffusion_silent (ar_diffusionNetwork s1)" using 1 by (simp add: reverb_silent_def)
  moreover have "DiffusionNetwork_process (ar_diffusionNetwork s1) (AudioBuffer_new 2 n) = Some (dn, w2)"
    using b 1 by (simp add: Z_def)
  ultimately have 2: "w2 = Z \<and> diffusion_silent dn"
    unfolding Z_def by (rule diffusion_silent_process)
  have s2: "reverb_silent (s1\<lparr>ar_diffusionNetwork := dn\<rparr>)"
    using 1 2 by (simp add: reverb_silent_def)
  have 3: "reverb_silent (fst (s3, w3)) \<and> snd (s3, w3) = Z"
  proof (rule foldM_preserves[OF c, where Q = "\<lambda>t. reverb_silent (fst t) \<and> snd t = Z"])
    show "reverb_silent (fst (s1\<lparr>ar_diffusionNetwork := dn\<rparr>, w2)) \<and>
          snd (s1\<lparr>ar_diffusionNetwork := dn\<rparr>, w2) = Z" using s2 2 by simp
  next
    fix i and u u' :: "AlgorithmicReverb \<times> AudioBuffer"
    assume "reverb_silent (fst u) \<and> snd u = Z" "comb_sample i u = Some u'"
    then show "reverb_silent (fst u') \<and> snd u' = Z"
      unfolding Z_def by (rule comb_sample_silent)
  qed
  have "duplicator_silent (ar_highCutFilter s3)" using 3 by (simp add: reverb_silent_def)
  moreover have "ProcessorDuplicator_process (ar_highCutFilter s3) (AudioBuffer_new 2 n) = Some (hc, w4)"
    using d 3 by (simp add: Z_def)
  ultimately have 4: "w4 = Z \<and> duplicator_silent hc"
    unfolding Z_def by (rule duplicator_silent_process)
  have "duplicator_silent (ar_lowCutFilter s3)" using 3 by (simp add: reverb_silent_def)
  moreover have "ProcessorDuplicator_process (ar_lowCutFilter s3) (AudioBuffer_new 2 n) = Some (lc, w5)"
    using e 4 by (simp add: Z_def)
  ultimately have 5: "w5 = Z \<and> duplicator_silent lc"
    unfolding Z_def by (rule duplicator_silent_process)
  have 6: "w6 = Z" using f 5 by (simp add: Z_def width_silent)
  have 7: "buffer' = AudioBuffer_new nch n" using g unfolding 6 Z_def copy_back_silent by simp
  show ?thesis using 7 3 4 5 by (simp add: s' reverb_silent_def)
qed

subsection \<open>A pre-delay longer than the pre-delay line\<close>

lemma prepare_preDelay:
  "ar_preDelayBuffer (AlgorithmicReverb_prepare J phaseDraw draw sr maxBlockSize s) =
     replicate 2 (replicate (nat (to_int (f64_round (0.5 * sr)))) 0)"
  "ar_preDelaySamples (AlgorithmicReverb_prepare J phaseDraw draw sr maxBlockSize s) =
     ar_preDelaySamples s"
  "ar_preDelayWriteIndex (AlgorithmicReverb_prepare J phaseDraw draw sr maxBlockSize s) = 0"
  "ar_sampleRate (AlgorithmicReverb_prepare J phaseDraw draw sr maxBlockSize s) = sr"
  by (simp_all add: AlgorithmicReverb_prepare_def updateDecay_def updateFilters_def Let_def
      numeral_2_eq_2)

lemma reset_preDelay:
  "ar_preDelayBuffer (AlgorithmicReverb_reset s) = map (map (\<lambda>_. 0)) (ar_preDelayBuffer s)"
  "ar_preDelaySamples (AlgorithmicReverb_reset s) = ar_preDelaySamples s"
  "ar_preDelayWriteIndex (AlgorithmicReverb_reset s) = 0"
  by (simp_all add: AlgorithmicReverb_reset_def)

text \<open>The read of the first loop is outside the pre-delay line when the stored pre-delay
  is larger than the line.\<close>

lemma preDelay_sample_outside:
  assumes "length (ar_preDelayBuffer s) = 2"
    "ar_preDelayWriteIndex s - ar_preDelaySamples s + int (length (ar_preDelayBuffer s ! 0)) < 0"
    "0 \<le> ar_preDelayWriteIndex s"
  shows "preDelay_sample buffer draws numChannels sample (s, wetBuffer) = None"
proof -
  have n: "ar_preDelayWriteIndex s - ar_preDelaySamples s < 0" using assms(2) by linarith
  have l: "wr v i x = Some v' \<Longrightarrow> length v' = length v" for v v' :: "real list" and i x
    by (auto simp: wr_def split: if_splits)
  have r: "rd v' (ar_preDelayWriteIndex s - ar_preDelaySamples s + int (length (ar_preDelayBuffer s ! 0))) = None"
    for v' :: "real list"
    using assms(2) by (simp add: rd_def)
  show ?thesis
    using assms(1) n r
    by (auto simp: preDelay_sample_def Let_def rd_def split: Option.bind_splits)
qed

text \<open>
  Claim C2 says that \<^verbatim>\<open>process\<close>, immediately after \<^verbatim>\<open>reset ()\<close>, turns a block of zeros
  into a block of zeros, for any block length, 1 or 2 channels and any parameter settings.
  Lemma \<open>process_silent\<close> shows this for every call of \<^verbatim>\<open>process\<close> that returns. Not every
  call does. \<^verbatim>\<open>setPreDelay\<close> clamps the pre-delay to the length of the pre-delay line, but
  \<^verbatim>\<open>prepare\<close> gives the line a new length and keeps the stored pre-delay, and \<^verbatim>\<open>reset\<close>
  keeps it, too. The run below prepares the reverb at 96 kHz, sets a pre-delay of 500 ms,
  which is clamped to 47999 samples, prepares it again at 44.1 kHz, where the line has 22050
  samples, and resets it. The first sample of the next block is read from the pre-delay line
  at the index \<open>0 - 47999 + 22050 = - 25949\<close>, outside the line: \<^verbatim>\<open>process\<close> has no defined
  result, for any random draws of the modulation engine.
\<close>

theorem silence_after_reset_fails:
  "map_option ar_preDelaySamples AlgorithmicReverb_stale = Some 47999 \<and>
   map_option (\<lambda>s. map length (ar_preDelayBuffer s)) AlgorithmicReverb_stale = Some [22050, 22050] \<and>
   (AlgorithmicReverb_stale \<bind> (\<lambda>s. AlgorithmicReverb_process draws s (AudioBuffer_new 2 1))) = None"
proof -
  define s96 where "s96 = AlgorithmicReverb_prepare IIRDesign_example (\<lambda>i. 0) (\<lambda>i. 0) 96000 512
               AlgorithmicReverb_new"
  define s1 where "s1 = s96\<lparr>ar_preDelaySamples := 47999\<rparr>"
  define s where "s = AlgorithmicReverb_reset
             (AlgorithmicReverb_prepare IIRDesign_example (\<lambda>i. 0) (\<lambda>i. 0) 44100 512 s1)"
  have b96: "ar_preDelayBuffer s96 = replicate 2 (replicate 48000 0)" "ar_sampleRate s96 = 96000"
    unfolding s96_def prepare_preDelay by (simp_all add: f64_values to_int_def)
  have p: "setPreDelay 500 s96 = Some s1"
    by (simp add: setPreDelay_def b96 f64_values to_int_checked_def to_int_def jlimit_def s1_def
        numeral_2_eq_2)
  have st: "AlgorithmicReverb_stale = Some s"
    unfolding AlgorithmicReverb_stale_def s96_def[symmetric] p s_def by simp
  have f: "ar_preDelaySamples s = 47999" "ar_preDelayBuffer s = replicate 2 (replicate 22050 0)"
    "ar_preDelayWriteIndex s = 0"
    unfolding s_def reset_preDelay prepare_preDelay
    by (simp_all add: s1_def f64_values to_int_def)
  have "preDelay_sample (AudioBuffer_new 2 1) draws n 0 (s, w) = None" for n w
    by (rule preDelay_sample_outside) (simp_all add: f numeral_2_eq_2)
  then have "AlgorithmicReverb_process draws s (AudioBuffer_new 2 1) = None"
    by (simp add: AlgorithmicReverb_process_def Let_def AudioBuffer_new_def)
  then show ?thesis by (simp add: st f numeral_2_eq_2)
qed

section \<open>AlgorithmicReverb: the stereo width\<close>

lemma width_sample_step:
  fixes f g :: "nat \<Rightarrow> real"
  assumes "k < n"
  shows "width_sample w k \<lparr>ab_numSamples = m, ab_data = [map f [0..<n], map g [0..<n]]\<rparr> =
     Some \<lparr>ab_numSamples = m,
           ab_data = [map (f(k := (f k + g k) * 0.5 + (f k - g k) * 0.5 * w)) [0..<n],
                      map (g(k := (f k + g k) * 0.5 - (f k - g k) * 0.5 * w)) [0..<n]]\<rparr>"
proof -
  have u: "(map h [0..<n])[k := v] = map (h(k := v)) [0..<n]" for h :: "nat \<Rightarrow> real" and v
    using assms by (auto simp: list_eq_iff_nth_eq nth_list_update)
  show ?thesis
    using assms by (simp add: width_sample_def getSample_def setSample_def rd_def wr_def u Let_def)
qed

lemma width_loop:
  fixes L R :: "nat \<Rightarrow> real"
  assumes "k \<le> n"
  shows "foldM (width_sample w) [0..<k] \<lparr>ab_numSamples = m, ab_data = [map L [0..<n], map R [0..<n]]\<rparr> =
     Some \<lparr>ab_numSamples = m,
           ab_data = [map (\<lambda>i. if i < k then (L i + R i) * 0.5 + (L i - R i) * 0.5 * w else L i) [0..<n],
                      map (\<lambda>i. if i < k then (L i + R i) * 0.5 - (L i - R i) * 0.5 * w else R i) [0..<n]]\<rparr>"
  using assms
proof (induction k)
  case 0
  show ?case by simp
next
  case (Suc k)
  have k: "k < n" "k \<le> n" using Suc.prems by auto
  have e1: "(\<lambda>i. if i < k then (L i + R i) * 0.5 + (L i - R i) * 0.5 * w else L i)
              (k := (L k + R k) * 0.5 + (L k - R k) * 0.5 * w) =
            (\<lambda>i. if i < Suc k then (L i + R i) * 0.5 + (L i - R i) * 0.5 * w else L i)"
    by (auto simp: fun_eq_iff less_Suc_eq)
  have e2: "(\<lambda>i. if i < k then (L i + R i) * 0.5 - (L i - R i) * 0.5 * w else R i)
              (k := (L k + R k) * 0.5 - (L k - R k) * 0.5 * w) =
            (\<lambda>i. if i < Suc k then (L i + R i) * 0.5 - (L i - R i) * 0.5 * w else R i)"
    by (auto simp: fun_eq_iff less_Suc_eq)
  have "foldM (width_sample w) [0..<Suc k] \<lparr>ab_numSamples = m, ab_data = [map L [0..<n], map R [0..<n]]\<rparr> =
        width_sample w k \<lparr>ab_numSamples = m,
           ab_data = [map (\<lambda>i. if i < k then (L i + R i) * 0.5 + (L i - R i) * 0.5 * w else L i) [0..<n],
                      map (\<lambda>i. if i < k then (L i + R i) * 0.5 - (L i - R i) * 0.5 * w else R i) [0..<n]]\<rparr>"
    using Suc.IH[OF k(2)] by (simp add: foldM_append split: option.splits)
  also have "\<dots> = Some \<lparr>ab_numSamples = m,
           ab_data = [map (\<lambda>i. if i < Suc k then (L i + R i) * 0.5 + (L i - R i) * 0.5 * w else L i) [0..<n],
                      map (\<lambda>i. if i < Suc k then (L i + R i) * 0.5 - (L i - R i) * 0.5 * w else R i) [0..<n]]\<rparr>"
    unfolding width_sample_step[OF k(1)] using e1 e2 by simp
  finally show ?case .
qed

lemma two_channels:
  assumes "length (ab_data wet) = 2" "buffer_ok wet"
  shows "wet = \<lparr>ab_numSamples = ab_numSamples wet,
               ab_data = [map (\<lambda>i. ab_data wet ! 0 ! i) [0..<ab_numSamples wet],
                          map (\<lambda>i. ab_data wet ! 1 ! i) [0..<ab_numSamples wet]]\<rparr>"
proof -
  obtain l r where lr: "ab_data wet = [l, r]"
    using assms(1) by (auto simp: length_Suc_conv numeral_2_eq_2)
  have len: "length l = ab_numSamples wet" "length r = ab_numSamples wet"
    using assms(2) lr by (simp_all add: buffer_ok_def)
  have "map (\<lambda>i. l ! i) [0..<ab_numSamples wet] = l" "map (\<lambda>i. r ! i) [0..<ab_numSamples wet] = r"
    using len by (metis map_nth)+
  then show ?thesis using lr by simp
qed

text \<open>
  Claim C6, as amended. For every width set via \<^verbatim>\<open>setWidth\<close> (clamped into \<open>[0, 2]\<close>) and
  every sample \<open>i\<close> of the two-channel wet block, step 5 of the pipeline returns a block of
  the same shape in which, when the width differs from 1 by more than 0.01,
  \<open>L' = mid + side\<close> and \<open>R' = mid - side\<close> with \<open>mid = (L + R) / 2\<close> and
  \<open>side = (L - R) / 2 * width\<close>; when the width is within 0.01 of 1 the block is left as it
  is. Hence width 0 makes both channels equal to \<open>mid\<close>, width 1 leaves \<open>L\<close> and \<open>R\<close>
  unchanged, and width 2 doubles the side signal \<open>(L - R) / 2\<close>.
\<close>

theorem stereo_width_transform:
  assumes "length (ab_data wet) = 2" "buffer_ok wet" "width = ar_width (setWidth w s)"
    "i < ab_numSamples wet"
  shows "\<exists>wet'. applyStereoWidth width (ab_numSamples wet) wet = Some wet' \<and>
     length (ab_data wet') = 2 \<and> buffer_ok wet' \<and> ab_numSamples wet' = ab_numSamples wet \<and>
     0 \<le> width \<and> width \<le> 2 \<and>
     (let L = ab_data wet ! 0 ! i; R = ab_data wet ! 1 ! i;
          L' = ab_data wet' ! 0 ! i; R' = ab_data wet' ! 1 ! i;
          mid = (L + R) / 2; side = (L - R) / 2 * width
      in (if \<bar>width - 1\<bar> > 0.01 then L' = mid + side \<and> R' = mid - side else L' = L \<and> R' = R) \<and>
         (width = 0 \<longrightarrow> L' = mid \<and> R' = mid) \<and>
         (width = 1 \<longrightarrow> L' = L \<and> R' = R) \<and>
         (width = 2 \<longrightarrow> (L' - R') / 2 = 2 * ((L - R) / 2)))"
proof -
  define n where "n = ab_numSamples wet"
  define L where "L = (\<lambda>i. ab_data wet ! 0 ! i)"
  define R where "R = (\<lambda>i. ab_data wet ! 1 ! i)"
  have wet: "wet = \<lparr>ab_numSamples = n, ab_data = [map L [0..<n], map R [0..<n]]\<rparr>"
    unfolding n_def L_def R_def by (rule two_channels[OF assms(1,2)])
  have wd: "0 \<le> width" "width \<le> 2" using assms(3) by (auto simp: setWidth_def jlimit_def)
  have i: "i < n" using assms(4) by (simp add: n_def)
  show ?thesis
  proof (cases "\<bar>width - 1\<bar> > 0.01")
    case True
    define wet' where "wet' = \<lparr>ab_numSamples = n,
           ab_data = [map (\<lambda>i. if i < n then (L i + R i) * 0.5 + (L i - R i) * 0.5 * width else L i) [0..<n],
                      map (\<lambda>i. if i < n then (L i + R i) * 0.5 - (L i - R i) * 0.5 * width else R i) [0..<n]]\<rparr>"
    have "applyStereoWidth width n wet = Some wet'"
      unfolding applyStereoWidth_def wet'_def
      using True width_loop[of n n width n L R] by (subst wet) simp
    moreover have "length (ab_data wet') = 2" "buffer_ok wet'" "ab_numSamples wet' = n"
      by (simp_all add: wet'_def buffer_ok_def)
    moreover have "ab_data wet' ! 0 ! i = (L i + R i) / 2 + (L i - R i) / 2 * width"
      "ab_data wet' ! 1 ! i = (L i + R i) / 2 - (L i - R i) / 2 * width"
      using i by (simp_all add: wet'_def)
    ultimately show ?thesis
      using True wd unfolding n_def[symmetric] L_def[symmetric] R_def[symmetric] Let_def
      by (intro exI[of _ wet']) (auto simp: L_def R_def field_simps)
  next
    case False
    have "applyStereoWidth width n wet = Some wet" using False by (simp add: applyStereoWidth_def)
    then show ?thesis
      using False wd assms(1,2) unfolding Let_def
      by (intro exI[of _ wet]) (auto simp: n_def)
  qed
qed


theorem stereo_width_transform_witness:
  "\<exists>wet'. applyStereoWidth (ar_width (setWidth 0 AlgorithmicReverb_example)) 1 AudioBuffer_example = Some wet' \<and>
      ab_data wet' ! 0 ! 0 = 1 / 2 \<and> ab_data wet' ! 1 ! 0 = 1 / 2"
proof -
  have h: "length (ab_data AudioBuffer_example) = 2" "buffer_ok AudioBuffer_example"
    "ar_width (setWidth 0 AlgorithmicReverb_example) = ar_width (setWidth 0 AlgorithmicReverb_example)"
    "0 < ab_numSamples AudioBuffer_example"
    by (simp_all add: AudioBuffer_example_def buffer_ok_def)
  have w: "ar_width (setWidth 0 AlgorithmicReverb_example) = 0"
    by (simp add: setWidth_def jlimit_def)
  show ?thesis
    using stereo_width_transform[OF h] unfolding w
    by (auto simp: AudioBuffer_example_def Let_def)
qed

text \<open>The claim as stated fails for a width close to 1: at width 1.005 the block
  \<open>L = 1\<close>, \<open>R = 0\<close> is returned unchanged, and \<open>mid + side\<close> is 1.0025.\<close>

theorem stereo_width_counterexample:
  "applyStereoWidth (ar_width (setWidth 1.005 AlgorithmicReverb_example)) 1 AudioBuffer_example =
     Some AudioBuffer_example \<and>
   ab_data AudioBuffer_example ! 0 ! 0 = 1 \<and> ab_data AudioBuffer_example ! 1 ! 0 = 0 \<and>
   (1 + 0) / 2 + (1 - 0) / 2 * ar_width (setWidth 1.005 AlgorithmicReverb_example) \<noteq> (1::real)"
  by (simp add: applyStereoWidth_def setWidth_def jlimit_def AudioBuffer_example_def)

section \<open>AlgorithmicReverb: what reset clears\<close>

text \<open>
  Claim C5, as amended. \<^verbatim>\<open>AlgorithmicReverb::reset ()\<close> zeroes the contents of every delay
  buffer (the pre-delay lines, the comb buffers, the allpass buffers) without changing the
  length of any of them, zeroes every write index, every comb filter state and the state of
  every IIR filter, and zeroes the drift values, drift targets and smoothed outputs of the
  modulation engine; the phase of oscillator \<open>i\<close> is set to \<open>i * 0.37\<close>.
\<close>

theorem reset_clears:
  "list_all zeros (ar_preDelayBuffer (AlgorithmicReverb_reset s)) \<and>
   map length (ar_preDelayBuffer (AlgorithmicReverb_reset s)) = map length (ar_preDelayBuffer s) \<and>
   ar_preDelayWriteIndex (AlgorithmicReverb_reset s) = 0 \<and>
   list_all (list_all (\<lambda>c. zeros (cf_buffer c) \<and> cf_filterState c = 0 \<and> cf_writeIndex c = 0))
     (ar_combFilters (AlgorithmicReverb_reset s)) \<and>
   map (map (\<lambda>c. length (cf_buffer c))) (ar_combFilters (AlgorithmicReverb_reset s)) =
     map (map (\<lambda>c. length (cf_buffer c))) (ar_combFilters s) \<and>
   list_all (list_all (\<lambda>a. zeros (ap_buffer a) \<and> ap_writeIndex a = 0))
     (dn_allpassFilters (ar_diffusionNetwork (AlgorithmicReverb_reset s))) \<and>
   map (map (\<lambda>a. length (ap_buffer a))) (dn_allpassFilters (ar_diffusionNetwork (AlgorithmicReverb_reset s))) =
     map (map (\<lambda>a. length (ap_buffer a))) (dn_allpassFilters (ar_diffusionNetwork s)) \<and>
   list_all (\<lambda>f. iir_v1 f = 0 \<and> iir_v2 f = 0)
     (pd_filters (dn_lowMidFilter (ar_diffusionNetwork (AlgorithmicReverb_reset s)))) \<and>
   list_all (\<lambda>f. iir_v1 f = 0 \<and> iir_v2 f = 0) (pd_filters (ar_highCutFilter (AlgorithmicReverb_reset s))) \<and>
   list_all (\<lambda>f. iir_v1 f = 0 \<and> iir_v2 f = 0) (pd_filters (ar_lowCutFilter (AlgorithmicReverb_reset s))) \<and>
   me_driftValues (ar_modulationEngine (AlgorithmicReverb_reset s)) = replicate NumOutputs 0 \<and>
   me_driftTargets (ar_modulationEngine (AlgorithmicReverb_reset s)) = replicate NumOutputs 0 \<and>
   me_smoothedOutputs (ar_modulationEngine (AlgorithmicReverb_reset s)) = replicate NumOutputs 0 \<and>
   me_lfoPhases (ar_modulationEngine (AlgorithmicReverb_reset s)) = map (\<lambda>i. real i * 0.37) [0..<NumLFOs]"
  by (simp add: AlgorithmicReverb_reset_def CombFilter_reset_def DiffusionNetwork_reset_def
      AllpassFilter_reset_def ProcessorDuplicator_reset_def IIRFilter_reset_def
      ModulationEngine_reset_def list_all_iff zeros_map zeros_replicate comp_def map_replicate_const)

theorem reset_clears_witness:
  "list_all zeros (ar_preDelayBuffer (AlgorithmicReverb_reset AlgorithmicReverb_example)) \<and>
   ar_preDelayWriteIndex (AlgorithmicReverb_reset AlgorithmicReverb_example) = 0 \<and>
   me_lfoPhases (ar_modulationEngine (AlgorithmicReverb_reset AlgorithmicReverb_example)) =
     [0, 0.37, 0.74, 1.11, 1.48, 1.85]"
proof -
  have "map (\<lambda>i. real i * 0.37) [0..<NumLFOs] = [0, 0.37, 0.74, 1.11, 1.48, 1.85]"
    by (simp add: NumLFOs_def upt_rec)
  then show ?thesis using reset_clears[of AlgorithmicReverb_example] by simp
qed

text \<open>The claim as stated fails: oscillator 1 has phase 0.37 after \<^verbatim>\<open>reset\<close>, and a
  decay envelope of 0.5 is still 0.5 afterwards, since \<^verbatim>\<open>reset\<close> does not write it.\<close>

theorem reset_counterexample:
  "getDecayEnvelope (AlgorithmicReverb_reset (AlgorithmicReverb_example\<lparr>ar_decayEnvelope := 1 / 2\<rparr>)) \<noteq> 0 \<and>
   me_lfoPhases (ar_modulationEngine (AlgorithmicReverb_reset AlgorithmicReverb_example)) ! 1 \<noteq> 0"
  by (simp add: getDecayEnvelope_def AlgorithmicReverb_reset_def ModulationEngine_reset_def NumLFOs_def)

lemma reset_keeps_envelope:
  "getDecayEnvelope (AlgorithmicReverb_reset s) = getDecayEnvelope s"
  by (simp add: getDecayEnvelope_def AlgorithmicReverb_reset_def)

section \<open>FairingSeparation: the duration of the effect\<close>



subsection \<open>Rounding on a grid\<close>





subsection \<open>Advancing the phase\<close>











subsection \<open>The phase at 44100 Hz, binade by binade\<close>



subsection \<open>Exact arithmetic, and blocks\<close>












end
